theory Spec2Isabelle
  imports Main "HOL-Library.Sublist"
begin

section \<open>EP3Gen: the directive parser and the section partitioner\<close>

text \<open>
  A shallow embedding of the structural core of EP3Gen (package \<open>main\<close> and
  \<open>internal/gen\<close>): the line cursor, the metadata extractor, the three directive
  loops of \<open>main\<close>, and the partitioning done by \<open>GenNAVFile\<close>.

  Go's \<open>panic\<close> is modelled as the left injection of a sum; a run-time panic of the Go
  run time (index or slice bounds out of range) is an error value of its own, so that it
  can be told apart from the program's own messages.  File creation and template
  execution are the external rendering sink and are not modelled; what the section
  generators do to the cursor is.
\<close>

subsection \<open>Errors\<close>

datatype error =
    UnexpectedEndOfInput          \<comment> \<open>"epubgen: unexpected end of input file"\<close>
  | IndexOutOfRange               \<comment> \<open>Go run time: index out of range\<close>
  | SliceBoundsOutOfRange         \<comment> \<open>Go run time: slice bounds out of range\<close>
  | MalformedMetadata string      \<comment> \<open>"Invalid 'meta' HTML line: " + line\<close>
  | HeadingFormatError            \<comment> \<open>"HTML line with one of the tags h1, h2 or h3 expected"\<close>
  | TitlePageDirectiveExpected    \<comment> \<open>"titlepage directive expected"\<close>
  | CopyrightDirectiveExpected    \<comment> \<open>"copyright directive expected"\<close>
  | DuplicateDirective string     \<comment> \<open>"Directive ... already specified"\<close>
  | NoChapterSpecified            \<comment> \<open>"at least one chapter directive must be specified"\<close>
  | UnknownDirective string       \<comment> \<open>"Unknown directive: " + line\<close>
  | UnsupportedImageExtension     \<comment> \<open>"only image files with extension 'png' or 'jpeg' are accepted"\<close>
  | AttributeRequired string      \<comment> \<open>"attribute '...' required"\<close>
  | VersionEpub3Required          \<comment> \<open>"attribute 'version' with value 'epub3' required"\<close>

definition bindE :: "error + 'a \<Rightarrow> ('a \<Rightarrow> error + 'b) \<Rightarrow> error + 'b" where
  "bindE m f = (case m of Inl e \<Rightarrow> Inl e | Inr x \<Rightarrow> f x)"

subsection \<open>Strings and slices as Go has them\<close>

text \<open>\<open>strings.HasPrefix(s, p)\<close>.\<close>

definition HasPrefix :: "string \<Rightarrow> string \<Rightarrow> bool" where
  "HasPrefix s p = prefix p s"

text \<open>\<open>strings.Index(s, sub)\<close>: the index of the first instance of \<open>sub\<close>, or \<open>-1\<close>.\<close>

fun IndexFrom :: "nat \<Rightarrow> string \<Rightarrow> string \<Rightarrow> int" where
  "IndexFrom i [] sub = (if sub = [] then int i else -1)"
| "IndexFrom i (c # cs) sub =
     (if prefix sub (c # cs) then int i else IndexFrom (i + 1) cs sub)"

definition Index :: "string \<Rightarrow> string \<Rightarrow> int" where
  "Index s sub = IndexFrom 0 s sub"

text \<open>The slice expressions \<open>s[lo:hi]\<close> and \<open>s[lo:]\<close>; out of bounds they panic.\<close>

definition slice :: "'a list \<Rightarrow> int \<Rightarrow> int \<Rightarrow> error + 'a list" where
  "slice xs lo hi =
     (if 0 \<le> lo \<and> lo \<le> hi \<and> hi \<le> int (length xs)
      then Inr (take (nat (hi - lo)) (drop (nat lo) xs))
      else Inl SliceBoundsOutOfRange)"

definition sliceFrom :: "'a list \<Rightarrow> int \<Rightarrow> error + 'a list" where
  "sliceFrom xs lo = slice xs lo (int (length xs))"

text \<open>\<open>strings.Cut(s, sep)\<close>: the text before and after the first \<open>sep\<close>, and whether
  \<open>sep\<close> was found.\<close>

definition Cut :: "string \<Rightarrow> string \<Rightarrow> string \<times> string \<times> bool" where
  "Cut s sep =
     (let i = Index s sep in
      if 0 \<le> i then (take (nat i) s, drop (nat i + length sep) s, True)
      else (s, [], False))"

text \<open>\<open>strings.Split(s, sep)\<close> for a separator of one byte, which is what both call
  sites pass (\<open>","\<close> and \<open>"."\<close>).\<close>

fun Split :: "string \<Rightarrow> char \<Rightarrow> string list" where
  "Split [] sep = [[]]"
| "Split (c # cs) sep =
     (if c = sep then [] # Split cs sep
      else (case Split cs sep of [] \<Rightarrow> [[c]] | x # xs \<Rightarrow> (c # x) # xs))"

text \<open>\<open>fmt.Sprintf("section%03d", n)\<close> for \<open>n \<ge> 0\<close>.\<close>

definition digitChar :: "nat \<Rightarrow> char" where
  "digitChar d = ''0123456789'' ! d"

fun decimal :: "nat \<Rightarrow> string" where
  "decimal n = (if n < 10 then [digitChar n] else decimal (n div 10) @ [digitChar (n mod 10)])"

declare decimal.simps [simp del]

definition sectionID :: "nat \<Rightarrow> string" where
  "sectionID n = ''section'' @ replicate (3 - length (decimal n)) (CHR ''0'') @ decimal n"

subsection \<open>The data model\<close>

record SectionData =
  ID :: string
  EpubType :: string
  Heading :: string

record ImageData =
  FileName :: string
  MediaType :: string
  Caption :: string

record PartSectionData =
  Part :: SectionData
  Chapters :: "SectionData list"

text \<open>
  \<open>lineIndex\<close> and \<open>currSectionNo\<close> are Go \<open>int\<close>s that start at 0 and are only ever
  incremented, at most once per input line, so they are natural numbers here.
\<close>

record InputBuffer =
  CurrLine :: string
  lineIndex :: nat
  lines :: "string list"
  attributes :: "string \<rightharpoonup> string"
  coverImage :: ImageData
  images :: "string \<rightharpoonup> ImageData"
  sections :: "SectionData list"
  guides :: "SectionData list"
  currSectionNo :: nat

definition zeroSection :: SectionData where
  "zeroSection = \<lparr>ID = [], EpubType = [], Heading = []\<rparr>"

definition zeroImage :: ImageData where
  "zeroImage = \<lparr>FileName = [], MediaType = [], Caption = []\<rparr>"

definition NewInputBuffer :: "string list \<Rightarrow> InputBuffer" where
  "NewInputBuffer ls =
     \<lparr>CurrLine = [], lineIndex = 0, lines = ls, attributes = Map.empty,
      coverImage = zeroImage, images = Map.empty, sections = [], guides = [],
      currSectionNo = 0\<rparr>"

definition NewSectionData :: "string \<Rightarrow> string \<Rightarrow> InputBuffer \<Rightarrow> SectionData \<times> InputBuffer" where
  "NewSectionData epubType heading b =
     (\<lparr>ID = sectionID (currSectionNo b + 1), EpubType = epubType, Heading = heading\<rparr>,
      b\<lparr>currSectionNo := currSectionNo b + 1\<rparr>)"

definition NextLine :: "InputBuffer \<Rightarrow> error + InputBuffer" where
  "NextLine b =
     (if lineIndex b + 1 = length (lines b) then Inl UnexpectedEndOfInput
      else if lineIndex b + 1 < length (lines b)
        then Inr (b\<lparr>lineIndex := lineIndex b + 1, CurrLine := lines b ! (lineIndex b + 1)\<rparr>)
        else Inl IndexOutOfRange)"

definition GetAttribute :: "InputBuffer \<Rightarrow> string \<Rightarrow> string" where
  "GetAttribute b key = (case attributes b key of None \<Rightarrow> [] | Some v \<Rightarrow> v)"

definition SetAttribute :: "string \<Rightarrow> string \<Rightarrow> InputBuffer \<Rightarrow> InputBuffer" where
  "SetAttribute key v b = b\<lparr>attributes := (attributes b)(key \<mapsto> v)\<rparr>"

definition AddSection :: "SectionData \<Rightarrow> InputBuffer \<Rightarrow> InputBuffer" where
  "AddSection s b = b\<lparr>sections := sections b @ [s]\<rparr>"

definition AddGuide :: "SectionData \<Rightarrow> InputBuffer \<Rightarrow> InputBuffer" where
  "AddGuide s b = b\<lparr>guides := guides b @ [s]\<rparr>"

subsection \<open>The section partitioner of \<open>GenNAVFile\<close>\<close>

record NavData =
  Title :: string
  FrontSections :: "SectionData list"
  HasParts :: bool
  PartSections :: "PartSectionData list"
  ChapterSections :: "SectionData list"
  BackSections :: "SectionData list"
  Guides :: "SectionData list"

text \<open>
  \<open>for index, section = range b.sections { if part or chapter { break } }\<close>: the two
  variables keep the values of the last iteration when nothing breaks the loop, and
  their initial values when the slice is empty.
\<close>

fun rangeScan :: "nat \<Rightarrow> SectionData \<Rightarrow> nat \<Rightarrow> SectionData list \<Rightarrow> nat \<times> SectionData" where
  "rangeScan index sec i [] = (index, sec)"
| "rangeScan index sec i (s # ss) =
     (if EpubType s = ''part'' \<or> EpubType s = ''chapter'' then (i, s)
      else rangeScan i s (i + 1) ss)"

text \<open>The loop of the \<open>hasParts\<close> branch; it returns the final \<open>index\<close> and \<open>partSections\<close>.\<close>

function partsLoop ::
  "SectionData list \<Rightarrow> nat \<Rightarrow> bool \<Rightarrow> SectionData \<Rightarrow> nat \<Rightarrow> PartSectionData list
     \<Rightarrow> error + (nat \<times> PartSectionData list)" where
  "partsLoop ss index firstTime currPart startIndex partSections =
     (if length ss \<le> index then Inl IndexOutOfRange
      else if EpubType (ss ! index) = ''part'' then
        (if firstTime then partsLoop ss (index + 1) False (ss ! index) (index + 1) []
         else (case slice ss (int startIndex) (int index) of
                 Inl e \<Rightarrow> Inl e
               | Inr chapters \<Rightarrow>
                   partsLoop ss (index + 1) False (ss ! index) (index + 1)
                     (partSections @ [\<lparr>Part = currPart, Chapters = chapters\<rparr>])))
      else if EpubType (ss ! index) \<noteq> ''chapter'' then
        (case slice ss (int startIndex) (int index) of
           Inl e \<Rightarrow> Inl e
         | Inr chapters \<Rightarrow> Inr (index, partSections @ [\<lparr>Part = currPart, Chapters = chapters\<rparr>]))
      else partsLoop ss (index + 1) firstTime currPart startIndex partSections)"
  by pat_completeness auto
termination
  by (relation "measure (\<lambda>(ss, index, _). length ss - index)") auto

declare partsLoop.simps [simp del]

text \<open>
  The branch without parts:
  \<open>for ; b.sections[index].EpubType != "chapter"; index++ { break }\<close>.
  When the condition holds the body breaks at once, and when it does not the loop is
  left at once; \<open>index\<close> is the same either way.
\<close>

definition chaptersLoop :: "SectionData list \<Rightarrow> nat \<Rightarrow> error + nat" where
  "chaptersLoop ss index =
     (if length ss \<le> index then Inl IndexOutOfRange
      else if EpubType (ss ! index) \<noteq> ''chapter'' then Inr index
      else Inr index)"

definition GenNAVFile :: "InputBuffer \<Rightarrow> error + NavData" where
  "GenNAVFile b =
     (case rangeScan 0 zeroSection 0 (sections b) of (index, sec) \<Rightarrow>
      bindE (slice (sections b) 0 (int index)) (\<lambda>frontSections.
      bindE (if EpubType sec = ''part''
             then bindE (partsLoop (sections b) index True zeroSection 0 [])
                    (\<lambda>(index', partSections). Inr (index', partSections, []))
             else bindE (chaptersLoop (sections b) index) (\<lambda>index'.
                  bindE (slice (sections b) (int index) (int index')) (\<lambda>chapterSections.
                  Inr (index', [], chapterSections))))
        (\<lambda>(index', partSections, chapterSections).
      bindE (sliceFrom (sections b) (int index')) (\<lambda>backSections.
      Inr \<lparr>Title = GetAttribute b ''title'',
           FrontSections = frontSections,
           HasParts = (EpubType sec = ''part''),
           PartSections = partSections,
           ChapterSections = chapterSections,
           BackSections = backSections,
           Guides = guides b\<rparr>))))"

subsection \<open>The line cursor and the loops that only move it\<close>

lemma NextLine_moves:
  "NextLine b = Inr b' \<Longrightarrow>
     lineIndex b + 1 < length (lines b) \<and>
     b' = b\<lparr>lineIndex := lineIndex b + 1, CurrLine := lines b ! (lineIndex b + 1)\<rparr>"
  by (auto simp: NextLine_def split: if_splits)

lemma NextLine_remaining:
  "NextLine b = Inr b' \<Longrightarrow>
     length (lines b') - lineIndex b' < length (lines b) - lineIndex b"
  by (auto dest!: NextLine_moves)

text \<open>\<open>for { buffer.NextLine(); if buffer.CurrLine == tag { break } }\<close>, as \<open>main\<close> has it
  for \<open><head>\<close> and \<open><body>\<close>.\<close>

function skipToLine :: "string \<Rightarrow> InputBuffer \<Rightarrow> error + InputBuffer" where
  "skipToLine tag b =
     (case NextLine b of
        Inl e \<Rightarrow> Inl e
      | Inr b' \<Rightarrow> if CurrLine b' = tag then Inr b' else skipToLine tag b')"
  by pat_completeness auto
termination
  by (relation "measure (\<lambda>(tag, b). length (lines b) - lineIndex b)")
     (auto dest: NextLine_remaining)

declare skipToLine.simps [simp del]

text \<open>
  The loop shared by \<open>GenCopyrightSection\<close>, \<open>GenFrontMatterSection\<close>,
  \<open>GenBodyMatterSection\<close> and \<open>GenBackMatterSection\<close>: the lines of the section are
  collected up to, and not including, the next line that starts with \<open><!--\<close>.
\<close>

function collectSectionLines :: "string list \<Rightarrow> InputBuffer \<Rightarrow> error + (string list \<times> InputBuffer)" where
  "collectSectionLines sectionLines b =
     (case NextLine b of
        Inl e \<Rightarrow> Inl e
      | Inr b' \<Rightarrow>
          if HasPrefix (CurrLine b') ''<!--'' then Inr (sectionLines @ [CurrLine b], b')
          else collectSectionLines (sectionLines @ [CurrLine b]) b')"
  by pat_completeness auto
termination
  by (relation "measure (\<lambda>(sectionLines, b). length (lines b) - lineIndex b)")
     (auto dest: NextLine_remaining)

declare collectSectionLines.simps [simp del]

subsection \<open>The metadata extractor\<close>

text \<open>The body of the loop of \<open>LoadAttributes\<close> for one line that is not \<open></head>\<close>.\<close>

definition LoadAttributesLine :: "string \<Rightarrow> (string \<rightharpoonup> string) \<Rightarrow> error + (string \<rightharpoonup> string)" where
  "LoadAttributesLine line attrs =
     (if HasPrefix line ''<meta'' then
        (if Index line ''name='' \<noteq> -1 then
           bindE (sliceFrom line (Index line ''name='' + 5 + 1)) (\<lambda>name.
             if Index name [CHR 0x22] = -1 then Inl (MalformedMetadata line)
             else if Index line ''content='' = -1 then Inl (MalformedMetadata line)
             else bindE (sliceFrom line (Index line ''content='' + 8 + 1)) (\<lambda>content.
               if Index content [CHR 0x22] = -1 then Inl (MalformedMetadata line)
               else if take (nat (Index name [CHR 0x22])) name \<noteq> []
                 then Inr (attrs(take (nat (Index name [CHR 0x22])) name
                             \<mapsto> take (nat (Index content [CHR 0x22])) content))
                 else Inr attrs))
         else Inr attrs)
      else Inr attrs)"

function LoadAttributes :: "InputBuffer \<Rightarrow> error + InputBuffer" where
  "LoadAttributes b =
     (case NextLine b of
        Inl e \<Rightarrow> Inl e
      | Inr b' \<Rightarrow>
          if CurrLine b' = ''</head>'' then Inr b'
          else (case LoadAttributesLine (CurrLine b') (attributes b') of
                  Inl e \<Rightarrow> Inl e
                | Inr attrs \<Rightarrow> LoadAttributes (b'\<lparr>attributes := attrs\<rparr>)))"
  by pat_completeness auto
termination
  by (relation "measure (\<lambda>b. length (lines b) - lineIndex b)")
     (auto dest: NextLine_remaining)

declare LoadAttributes.simps [simp del]

subsection \<open>Attribute checks\<close>

definition requireAttribute :: "InputBuffer \<Rightarrow> string \<Rightarrow> error + unit" where
  "requireAttribute b key = (if GetAttribute b key = [] then Inl (AttributeRequired key) else Inr ())"

definition checkRequiredAttributes :: "InputBuffer \<Rightarrow> error + unit" where
  "checkRequiredAttributes b =
     bindE (if GetAttribute b ''version'' \<noteq> []
            then (if GetAttribute b ''version'' \<noteq> ''epub3'' then Inl VersionEpub3Required else Inr ())
            else Inl (AttributeRequired ''version'')) (\<lambda>_.
     bindE (requireAttribute b ''title'') (\<lambda>_.
     bindE (requireAttribute b ''title-sort'') (\<lambda>_.
     bindE (requireAttribute b ''author'') (\<lambda>_.
     bindE (requireAttribute b ''author-sort'') (\<lambda>_.
     bindE (requireAttribute b ''published'') (\<lambda>_.
     bindE (requireAttribute b ''publisher'') (\<lambda>_.
     requireAttribute b ''language'')))))))"

definition CheckCoverImage :: "InputBuffer \<Rightarrow> error + InputBuffer" where
  "CheckCoverImage b =
     (if GetAttribute b ''cover-image'' = [] then Inl (AttributeRequired ''cover-image'')
      else (case Cut (GetAttribute b ''cover-image'') ''.'' of (_, mediaType, _) \<Rightarrow>
        if mediaType \<noteq> ''png'' \<and> mediaType \<noteq> ''jpeg'' then Inl UnsupportedImageExtension
        else Inr (b\<lparr>coverImage :=
               \<lparr>FileName = GetAttribute b ''cover-image'', MediaType = mediaType, Caption = []\<rparr>\<rparr>)))"

text \<open>The \<open>range\<close> loop of \<open>CheckImageFiles\<close> over the entries of the \<open>images\<close> attribute.\<close>

fun checkImageEntries :: "string list \<Rightarrow> (string \<rightharpoonup> ImageData) \<Rightarrow> error + (string \<rightharpoonup> ImageData)" where
  "checkImageEntries [] imgs = Inr imgs"
| "checkImageEntries (imageFile # files) imgs =
     (case Cut imageFile ''.'' of (_, mediaType, _) \<Rightarrow>
        if mediaType \<noteq> ''png'' \<and> mediaType \<noteq> ''jpeg'' then Inl UnsupportedImageExtension
        else checkImageEntries files
               (imgs(imageFile \<mapsto> \<lparr>FileName = imageFile, MediaType = mediaType, Caption = []\<rparr>)))"

definition CheckImageFiles :: "InputBuffer \<Rightarrow> error + InputBuffer" where
  "CheckImageFiles b =
     (if GetAttribute b ''images'' = [] then Inr b
      else bindE (checkImageEntries (Split (GetAttribute b ''images'') (CHR '','')) Map.empty)
             (\<lambda>imgs. Inr (b\<lparr>images := imgs\<rparr>)))"

subsection \<open>The section generators\<close>

definition coverSection :: SectionData where
  "coverSection = \<lparr>ID = ''cover'', EpubType = ''cover'', Heading = ''Cover Page''\<rparr>"

definition titlePageSection :: SectionData where
  "titlePageSection = \<lparr>ID = ''titlepage'', EpubType = ''titlepage'', Heading = ''Title Page''\<rparr>"

definition copyrightSection :: SectionData where
  "copyrightSection = \<lparr>ID = ''copyright'', EpubType = ''copyright-page'', Heading = ''Copyright''\<rparr>"

definition GenCoverSection :: "InputBuffer \<Rightarrow> InputBuffer" where
  "GenCoverSection b =
     b\<lparr>sections := sections b @ [coverSection], guides := guides b @ [coverSection]\<rparr>"

definition GenFrontMatterSection :: "SectionData \<Rightarrow> InputBuffer \<Rightarrow> error + InputBuffer" where
  "GenFrontMatterSection sec b =
     bindE (collectSectionLines [] b) (\<lambda>(sectionLines, b'). Inr b')"

definition GenBodyMatterSection :: "SectionData \<Rightarrow> InputBuffer \<Rightarrow> error + InputBuffer" where
  "GenBodyMatterSection sec b =
     bindE (collectSectionLines [] b) (\<lambda>(sectionLines, b'). Inr b')"

definition GenBackMatterSection :: "SectionData \<Rightarrow> InputBuffer \<Rightarrow> error + InputBuffer" where
  "GenBackMatterSection sec b =
     bindE (collectSectionLines [] b) (\<lambda>(sectionLines, b'). Inr b')"

definition GenTitlePageSection :: "InputBuffer \<Rightarrow> error + InputBuffer" where
  "GenTitlePageSection b =
     (let titlePage = (if GetAttribute b ''titlepage'' = [] then ''default''
                       else GetAttribute b ''titlepage'');
          b1 = b\<lparr>sections := sections b @ [titlePageSection],
                 guides := guides b @ [titlePageSection]\<rparr>
      in if titlePage = ''default'' then Inr b1
         else if titlePage = ''custom'' then
           bindE (NextLine b1) (\<lambda>b2.
             if CurrLine b2 = ''<!--titlepage-->''
             then bindE (NextLine b2) (\<lambda>b3. GenFrontMatterSection titlePageSection b3)
             else Inl TitlePageDirectiveExpected)
         else (let parts = Split titlePage (CHR ''.'') in
               if length parts \<le> 1 then Inl IndexOutOfRange
               else if parts ! 1 \<noteq> ''png'' \<and> parts ! 1 \<noteq> ''jpeg''
                 then Inl UnsupportedImageExtension
                 else Inr b1))"

definition GenCopyrightSection :: "string \<Rightarrow> InputBuffer \<Rightarrow> error + InputBuffer" where
  "GenCopyrightSection currDate b =
     (if CurrLine b \<noteq> ''<!--copyright-->'' then Inl CopyrightDirectiveExpected
      else bindE (NextLine b) (\<lambda>b1.
           bindE (collectSectionLines [] (b1\<lparr>sections := sections b1 @ [copyrightSection]\<rparr>))
             (\<lambda>(sectionLines, b2). Inr b2)))"

subsection \<open>Headings\<close>

definition extractHeading :: "string \<Rightarrow> error + string" where
  "extractHeading line =
     (if HasPrefix line ''<h1'' \<or> HasPrefix line ''<h2'' \<or> HasPrefix line ''<h3'' then
        bindE (slice line (Index line ''>'' + 1) (int (length line) - 5)) (\<lambda>heading.
          Inr (if heading = ''&#160;'' then [] else heading))
      else Inl HeadingFormatError)"

subsection \<open>The directive loops of \<open>main\<close>\<close>

text \<open>
  What every \<open>case\<close> of the front-matter loop does after its own duplicate check: read
  the heading line, fall back to the default label, build and add the Section, and
  consume the lines of the section.
\<close>

definition frontMatterDirective :: "string \<Rightarrow> string \<Rightarrow> InputBuffer \<Rightarrow> error + InputBuffer" where
  "frontMatterDirective epubType dflt b =
     bindE (NextLine b) (\<lambda>b1.
     bindE (extractHeading (CurrLine b1)) (\<lambda>heading.
       (case NewSectionData epubType (if heading = [] then dflt else heading) b1 of
          (sec, b2) \<Rightarrow> GenFrontMatterSection sec (AddSection sec b2))))"

text \<open>The \<open>part\<close> and \<open>chapter\<close> cases: no default label, and the first one is a guide.\<close>

definition bodyMatterDirective :: "string \<Rightarrow> bool \<Rightarrow> InputBuffer \<Rightarrow> error + InputBuffer" where
  "bodyMatterDirective epubType firstBodymatter b =
     bindE (NextLine b) (\<lambda>b1.
     bindE (extractHeading (CurrLine b1)) (\<lambda>heading.
       (case NewSectionData epubType heading b1 of
          (sec, b2) \<Rightarrow>
            bindE (GenBodyMatterSection sec (AddSection sec b2)) (\<lambda>b3.
              Inr (if firstBodymatter then AddGuide sec b3 else b3)))))"

text \<open>The back-matter cases: a default label, and the first one is a guide.\<close>

definition backMatterDirective :: "string \<Rightarrow> string \<Rightarrow> bool \<Rightarrow> InputBuffer \<Rightarrow> error + InputBuffer" where
  "backMatterDirective epubType dflt firstBackmatter b =
     bindE (NextLine b) (\<lambda>b1.
     bindE (extractHeading (CurrLine b1)) (\<lambda>heading.
       (case NewSectionData epubType (if heading = [] then dflt else heading) b1 of
          (sec, b2) \<Rightarrow>
            bindE (GenBackMatterSection sec (AddSection sec b2)) (\<lambda>b3.
              Inr (if firstBackmatter then AddGuide sec b3 else b3)))))"

record FrontFlags =
  bibliographyGiven :: bool
  acknowledgmentsGiven :: bool
  dedicationGiven :: bool
  epigraphGiven :: bool
  forewordGiven :: bool
  introductionGiven :: bool
  prefaceGiven :: bool
  prologueGiven :: bool

definition noFrontFlags :: FrontFlags where
  "noFrontFlags =
     \<lparr>bibliographyGiven = False, acknowledgmentsGiven = False, dedicationGiven = False,
      epigraphGiven = False, forewordGiven = False, introductionGiven = False,
      prefaceGiven = False, prologueGiven = False\<rparr>"

record BackFlags =
  afterwordGiven :: bool
  epilogueGiven :: bool
  firstBackmatter :: bool

definition initBackFlags :: BackFlags where
  "initBackFlags = \<lparr>afterwordGiven = False, epilogueGiven = False, firstBackmatter = True\<rparr>"

lemma collectSectionLines_moves:
  "collectSectionLines acc b = Inr (ls, b') \<Longrightarrow>
     \<exists>i. lineIndex b < i \<and> i < length (lines b) \<and>
         b' = b\<lparr>lineIndex := i, CurrLine := lines b ! i\<rparr>"
proof (induction acc b arbitrary: ls b' rule: collectSectionLines.induct)
  case (1 sectionLines b)
  from "1.prems" obtain b1 where n: "NextLine b = Inr b1"
    by (subst (asm) collectSectionLines.simps) (auto split: sum.splits)
  note m = NextLine_moves [OF n]
  show ?case
  proof (cases "HasPrefix (CurrLine b1) ''<!--''")
    case True
    with "1.prems" n have "b' = b1"
      by (subst (asm) collectSectionLines.simps) simp
    with m show ?thesis by auto
  next
    case False
    with "1.prems" n have r: "collectSectionLines (sectionLines @ [CurrLine b]) b1 = Inr (ls, b')"
      by (subst (asm) collectSectionLines.simps) simp
    from "1.IH" [OF n False r] obtain i where
      i: "lineIndex b1 < i" "i < length (lines b1)" "b' = b1\<lparr>lineIndex := i, CurrLine := lines b1 ! i\<rparr>"
      by blast
    with m have "lineIndex b < i \<and> i < length (lines b) \<and> b' = b\<lparr>lineIndex := i, CurrLine := lines b ! i\<rparr>"
      by auto
    then show ?thesis by blast
  qed
qed

lemma frontMatterDirective_remaining:
  "frontMatterDirective k d b = Inr b' \<Longrightarrow>
     length (lines b') - lineIndex b' < length (lines b) - lineIndex b"
  by (auto simp: frontMatterDirective_def bindE_def GenFrontMatterSection_def
        NewSectionData_def AddSection_def
      split: sum.splits prod.splits dest!: NextLine_moves collectSectionLines_moves)

lemma bodyMatterDirective_remaining:
  "bodyMatterDirective k f b = Inr b' \<Longrightarrow>
     length (lines b') - lineIndex b' < length (lines b) - lineIndex b"
  by (auto simp: bodyMatterDirective_def bindE_def GenBodyMatterSection_def
        NewSectionData_def AddSection_def AddGuide_def
      split: sum.splits prod.splits if_splits dest!: NextLine_moves collectSectionLines_moves)

lemma backMatterDirective_remaining:
  "backMatterDirective k d f b = Inr b' \<Longrightarrow>
     length (lines b') - lineIndex b' < length (lines b) - lineIndex b"
  by (auto simp: backMatterDirective_def bindE_def GenBackMatterSection_def
        NewSectionData_def AddSection_def AddGuide_def
      split: sum.splits prod.splits if_splits dest!: NextLine_moves collectSectionLines_moves)

text \<open>\<open>loop1\<close>: the optional front-matter directives.\<close>

function loop1 :: "FrontFlags \<Rightarrow> InputBuffer \<Rightarrow> error + InputBuffer" where
  "loop1 f b =
     (if CurrLine b = ''<!--bibliography-->'' then
        (if bibliographyGiven f then Inl (DuplicateDirective ''bibliography'')
         else (case frontMatterDirective ''bibliography'' ''Bibliography'' b of
                 Inl e \<Rightarrow> Inl e | Inr b' \<Rightarrow> loop1 (f\<lparr>bibliographyGiven := True\<rparr>) b'))
      else if CurrLine b = ''<!--acknowledgments-->'' then
        (if acknowledgmentsGiven f then Inl (DuplicateDirective ''acknowledgments'')
         else (case frontMatterDirective ''acknowledgments'' ''Acknowledgments'' b of
                 Inl e \<Rightarrow> Inl e | Inr b' \<Rightarrow> loop1 (f\<lparr>acknowledgmentsGiven := True\<rparr>) b'))
      else if CurrLine b = ''<!--dedication-->'' then
        (if dedicationGiven f then Inl (DuplicateDirective ''dedication'')
         else (case frontMatterDirective ''dedication'' ''Dedication'' b of
                 Inl e \<Rightarrow> Inl e | Inr b' \<Rightarrow> loop1 (f\<lparr>dedicationGiven := True\<rparr>) b'))
      else if CurrLine b = ''<!--epigraph-->'' then
        (if epigraphGiven f then Inl (DuplicateDirective ''epigraph'')
         else (case frontMatterDirective ''epigraph'' ''Epigraph'' b of
                 Inl e \<Rightarrow> Inl e | Inr b' \<Rightarrow> loop1 (f\<lparr>epigraphGiven := True\<rparr>) b'))
      else if CurrLine b = ''<!--foreword-->'' then
        (if forewordGiven f then Inl (DuplicateDirective ''foreword'')
         else (case frontMatterDirective ''foreword'' ''Foreword'' b of
                 Inl e \<Rightarrow> Inl e | Inr b' \<Rightarrow> loop1 (f\<lparr>forewordGiven := True\<rparr>) b'))
      else if CurrLine b = ''<!--introduction-->'' then
        (if introductionGiven f then Inl (DuplicateDirective ''introduction'')
         else (case frontMatterDirective ''introduction'' ''Introduction'' b of
                 Inl e \<Rightarrow> Inl e | Inr b' \<Rightarrow> loop1 (f\<lparr>introductionGiven := True\<rparr>) b'))
      else if CurrLine b = ''<!--preface-->'' then
        (if prefaceGiven f then Inl (DuplicateDirective ''preface'')
         else (case frontMatterDirective ''preface'' ''Preface'' b of
                 Inl e \<Rightarrow> Inl e | Inr b' \<Rightarrow> loop1 (f\<lparr>prefaceGiven := True\<rparr>) b'))
      else if CurrLine b = ''<!--prologue-->'' then
        (if prologueGiven f then Inl (DuplicateDirective ''prologue'')
         else (case frontMatterDirective ''prologue'' ''Prologue'' b of
                 Inl e \<Rightarrow> Inl e | Inr b' \<Rightarrow> loop1 (f\<lparr>prologueGiven := True\<rparr>) b'))
      else if CurrLine b = ''<!--preamble-->'' then
        (case frontMatterDirective ''preamble'' ''Preamble'' b of
           Inl e \<Rightarrow> Inl e | Inr b' \<Rightarrow> loop1 f b')
      else Inr b)"
  by pat_completeness auto
termination
  by (relation "measure (\<lambda>(f, b). length (lines b) - lineIndex b)")
     (auto dest: frontMatterDirective_remaining)

declare loop1.simps [simp del]

text \<open>\<open>loop2\<close>: parts and chapters; it returns \<open>firstBodymatter\<close> with the buffer.\<close>

function loop2 :: "bool \<Rightarrow> InputBuffer \<Rightarrow> error + (bool \<times> InputBuffer)" where
  "loop2 firstBodymatter b =
     (if CurrLine b = ''<!--part-->'' then
        (case bodyMatterDirective ''part'' firstBodymatter b of
           Inl e \<Rightarrow> Inl e | Inr b' \<Rightarrow> loop2 False b')
      else if CurrLine b = ''<!--chapter-->'' then
        (case bodyMatterDirective ''chapter'' firstBodymatter b of
           Inl e \<Rightarrow> Inl e | Inr b' \<Rightarrow> loop2 False b')
      else Inr (firstBodymatter, b))"
  by pat_completeness auto
termination
  by (relation "measure (\<lambda>(f, b). length (lines b) - lineIndex b)")
     (auto dest: bodyMatterDirective_remaining)

declare loop2.simps [simp del]

text \<open>\<open>loop3\<close>: the optional back-matter directives, up to \<open><!--end-->\<close>.\<close>

function loop3 :: "BackFlags \<Rightarrow> InputBuffer \<Rightarrow> error + InputBuffer" where
  "loop3 f b =
     (if CurrLine b = ''<!--afterword-->'' then
        (if afterwordGiven f then Inl (DuplicateDirective ''afterword'')
         else (case backMatterDirective ''afterword'' ''Afterword'' (firstBackmatter f) b of
                 Inl e \<Rightarrow> Inl e
               | Inr b' \<Rightarrow> loop3 (f\<lparr>afterwordGiven := True, firstBackmatter := False\<rparr>) b'))
      else if CurrLine b = ''<!--epilogue-->'' then
        (if epilogueGiven f then Inl (DuplicateDirective ''epilogue'')
         else (case backMatterDirective ''epilogue'' ''Epilogue'' (firstBackmatter f) b of
                 Inl e \<Rightarrow> Inl e
               | Inr b' \<Rightarrow> loop3 (f\<lparr>epilogueGiven := True, firstBackmatter := False\<rparr>) b'))
      else if CurrLine b = ''<!--appendix-->'' then
        (case backMatterDirective ''appendix'' ''Appendix'' (firstBackmatter f) b of
           Inl e \<Rightarrow> Inl e
         | Inr b' \<Rightarrow> loop3 (f\<lparr>firstBackmatter := False\<rparr>) b')
      else if CurrLine b = ''<!--end-->'' then Inr b
      else Inl (UnknownDirective (CurrLine b)))"
  by pat_completeness auto
termination
  by (relation "measure (\<lambda>(f, b). length (lines b) - lineIndex b)")
     (auto dest: backMatterDirective_remaining)

declare loop3.simps [simp del]

subsection \<open>The run of \<open>main\<close>\<close>

text \<open>
  \<open>parse\<close> is \<open>main\<close> from the first line read to the end of \<open>loop3\<close>; \<open>currTimeStamp\<close>
  is the RFC 3339 time of the run, of which the copyright section takes the first ten
  bytes.  \<open>runMain\<close> adds the partitioning done by \<open>GenNAVFile\<close>.
\<close>

definition parse :: "string \<Rightarrow> string list \<Rightarrow> error + InputBuffer" where
  "parse currTimeStamp ls =
     bindE (skipToLine ''<head>'' (NewInputBuffer ls)) (\<lambda>b.
     bindE (LoadAttributes b) (\<lambda>b.
     bindE (checkRequiredAttributes b) (\<lambda>_.
     bindE (CheckCoverImage b) (\<lambda>b.
     bindE (CheckImageFiles b) (\<lambda>b.
     bindE (Inr (SetAttribute ''modified'' currTimeStamp
                  (if GetAttribute b ''created'' = []
                   then SetAttribute ''created'' currTimeStamp b else b))) (\<lambda>b.
     bindE (skipToLine ''<body>'' b) (\<lambda>b.
     bindE (NextLine b) (\<lambda>b.
     bindE (GenTitlePageSection (GenCoverSection b)) (\<lambda>b.
     bindE (GenCopyrightSection (take 10 currTimeStamp) b) (\<lambda>b.
     bindE (loop1 noFrontFlags b) (\<lambda>b.
     bindE (loop2 True b) (\<lambda>(firstBodymatter, b).
       if firstBodymatter then Inl NoChapterSpecified
       else loop3 initBackFlags b))))))))))))"

definition runMain :: "string \<Rightarrow> string list \<Rightarrow> error + NavData" where
  "runMain currTimeStamp ls = bindE (parse currTimeStamp ls) GenNAVFile"

section \<open>Vocabulary of the proofs and sample documents\<close>

subsection \<open>Predicates, tables and relations used in the statements\<close>

definition cursorOK :: "InputBuffer \<Rightarrow> bool" where
  "cursorOK b \<longleftrightarrow> lineIndex b < length (lines b) \<and> CurrLine b = lines b ! lineIndex b"

definition appendsSection :: "string \<Rightarrow> InputBuffer \<Rightarrow> InputBuffer \<Rightarrow> bool" where
  "appendsSection k b b' \<longleftrightarrow>
     (\<exists>i h g. lineIndex b < i \<and> i < length (lines b) \<and>
        b' = b\<lparr>lineIndex := i, CurrLine := lines b ! i,
               currSectionNo := currSectionNo b + 1,
               sections := sections b @
                 [\<lparr>ID = sectionID (currSectionNo b + 1), EpubType = k, Heading = h\<rparr>],
               guides := g\<rparr>)"

definition directiveLine :: "string \<Rightarrow> string" where
  "directiveLine k = ''<!--'' @ k @ ''-->''"

definition frontKinds :: "string list" where
  "frontKinds = [''bibliography'', ''acknowledgments'', ''dedication'', ''epigraph'',
     ''foreword'', ''introduction'', ''preface'', ''prologue'', ''preamble'']"

definition bodyKinds :: "string list" where
  "bodyKinds = [''part'', ''chapter'']"

definition backKinds :: "string list" where
  "backKinds = [''afterword'', ''epilogue'', ''appendix'']"

definition directiveKinds :: "string list" where
  "directiveKinds = frontKinds @ bodyKinds @ backKinds"

text \<open>The invariant of the three loops.\<close>

definition sectionsInv :: "InputBuffer \<Rightarrow> bool" where
  "sectionsInv b \<longleftrightarrow>
     cursorOK b \<and>
     take 3 (sections b) = [coverSection, titlePageSection, copyrightSection] \<and>
     length (sections b) = currSectionNo b + 3 \<and>
     map ID (drop 3 (sections b)) = map sectionID [1..<currSectionNo b + 1] \<and>
     list_all (\<lambda>s. EpubType s \<in> set directiveKinds \<and>
                    directiveLine (EpubType s) \<in> set (lines b)) (drop 3 (sections b))"

text \<open>Reading a decimal numeral back, to show that \<open>sectionID\<close> is injective.\<close>

definition digitVal :: "char \<Rightarrow> nat" where
  "digitVal c = length (takeWhile (\<lambda>d. d \<noteq> c) ''0123456789'')"

definition readDecimal :: "string \<Rightarrow> nat" where
  "readDecimal s = foldl (\<lambda>a c. 10 * a + digitVal c) 0 s"

definition isBodyKind :: "SectionData \<Rightarrow> bool" where
  "isBodyKind s \<longleftrightarrow> EpubType s = ''part'' \<or> EpubType s = ''chapter''"

definition frontOnceKinds :: "string list" where
  "frontOnceKinds = [''bibliography'', ''acknowledgments'', ''dedication'', ''epigraph'',
     ''foreword'', ''introduction'', ''preface'', ''prologue'']"

definition backOnceKinds :: "string list" where
  "backOnceKinds = [''afterword'', ''epilogue'']"

text \<open>The flag that \<open>loop1\<close> tests and sets for a kind, and the default label it uses.\<close>

definition frontGiven :: "FrontFlags \<Rightarrow> string \<Rightarrow> bool" where
  "frontGiven f k =
     (if k = ''bibliography'' then bibliographyGiven f
      else if k = ''acknowledgments'' then acknowledgmentsGiven f
      else if k = ''dedication'' then dedicationGiven f
      else if k = ''epigraph'' then epigraphGiven f
      else if k = ''foreword'' then forewordGiven f
      else if k = ''introduction'' then introductionGiven f
      else if k = ''preface'' then prefaceGiven f
      else if k = ''prologue'' then prologueGiven f
      else False)"

definition setFrontGiven :: "string \<Rightarrow> FrontFlags \<Rightarrow> FrontFlags" where
  "setFrontGiven k f =
     (if k = ''bibliography'' then f\<lparr>bibliographyGiven := True\<rparr>
      else if k = ''acknowledgments'' then f\<lparr>acknowledgmentsGiven := True\<rparr>
      else if k = ''dedication'' then f\<lparr>dedicationGiven := True\<rparr>
      else if k = ''epigraph'' then f\<lparr>epigraphGiven := True\<rparr>
      else if k = ''foreword'' then f\<lparr>forewordGiven := True\<rparr>
      else if k = ''introduction'' then f\<lparr>introductionGiven := True\<rparr>
      else if k = ''preface'' then f\<lparr>prefaceGiven := True\<rparr>
      else if k = ''prologue'' then f\<lparr>prologueGiven := True\<rparr>
      else f)"

definition frontLabel :: "string \<Rightarrow> string" where
  "frontLabel k =
     (if k = ''bibliography'' then ''Bibliography''
      else if k = ''acknowledgments'' then ''Acknowledgments''
      else if k = ''dedication'' then ''Dedication''
      else if k = ''epigraph'' then ''Epigraph''
      else if k = ''foreword'' then ''Foreword''
      else if k = ''introduction'' then ''Introduction''
      else if k = ''preface'' then ''Preface''
      else if k = ''prologue'' then ''Prologue''
      else ''Preamble'')"

definition backGiven :: "BackFlags \<Rightarrow> string \<Rightarrow> bool" where
  "backGiven f k =
     (if k = ''afterword'' then afterwordGiven f
      else if k = ''epilogue'' then epilogueGiven f
      else False)"

definition setBackGiven :: "string \<Rightarrow> BackFlags \<Rightarrow> BackFlags" where
  "setBackGiven k f =
     (if k = ''afterword'' then f\<lparr>afterwordGiven := True, firstBackmatter := False\<rparr>
      else if k = ''epilogue'' then f\<lparr>epilogueGiven := True, firstBackmatter := False\<rparr>
      else f\<lparr>firstBackmatter := False\<rparr>)"

definition backLabel :: "string \<Rightarrow> string" where
  "backLabel k =
     (if k = ''afterword'' then ''Afterword''
      else if k = ''epilogue'' then ''Epilogue''
      else ''Appendix'')"

text \<open>
  \<open>loop1Reaches f b f' b'\<close>: started with the flags \<open>f\<close> on the buffer \<open>b\<close>, the front-matter
  loop is, after zero or more iterations that each built a Section, at the head of an
  iteration with the flags \<open>f'\<close> and the buffer \<open>b'\<close>.  \<open>loop3Reaches\<close> is the same for the
  back-matter loop.
\<close>

inductive loop1Reaches :: "FrontFlags \<Rightarrow> InputBuffer \<Rightarrow> FrontFlags \<Rightarrow> InputBuffer \<Rightarrow> bool" where
  here: "loop1Reaches f b f b"
| iteration:
    "k \<in> set frontKinds \<Longrightarrow> CurrLine b = directiveLine k \<Longrightarrow> \<not> frontGiven f k \<Longrightarrow>
     frontMatterDirective k (frontLabel k) b = Inr b1 \<Longrightarrow>
     loop1Reaches (setFrontGiven k f) b1 f' b' \<Longrightarrow>
     loop1Reaches f b f' b'"

inductive loop3Reaches :: "BackFlags \<Rightarrow> InputBuffer \<Rightarrow> BackFlags \<Rightarrow> InputBuffer \<Rightarrow> bool" where
  here: "loop3Reaches f b f b"
| iteration:
    "k \<in> set backKinds \<Longrightarrow> CurrLine b = directiveLine k \<Longrightarrow> \<not> backGiven f k \<Longrightarrow>
     backMatterDirective k (backLabel k) (firstBackmatter f) b = Inr b1 \<Longrightarrow>
     loop3Reaches (setBackGiven k f) b1 f' b' \<Longrightarrow>
     loop3Reaches f b f' b'"

text \<open>\<open>main\<close> up to the end of the front-matter loop.\<close>

definition parseFrontMatter :: "string \<Rightarrow> string list \<Rightarrow> error + InputBuffer" where
  "parseFrontMatter currTimeStamp ls =
     bindE (skipToLine ''<head>'' (NewInputBuffer ls)) (\<lambda>b.
     bindE (LoadAttributes b) (\<lambda>b.
     bindE (checkRequiredAttributes b) (\<lambda>_.
     bindE (CheckCoverImage b) (\<lambda>b.
     bindE (CheckImageFiles b) (\<lambda>b.
     bindE (Inr (SetAttribute ''modified'' currTimeStamp
                  (if GetAttribute b ''created'' = []
                   then SetAttribute ''created'' currTimeStamp b else b))) (\<lambda>b.
     bindE (skipToLine ''<body>'' b) (\<lambda>b.
     bindE (NextLine b) (\<lambda>b.
     bindE (GenTitlePageSection (GenCoverSection b)) (\<lambda>b.
     bindE (GenCopyrightSection (take 10 currTimeStamp) b) (\<lambda>b.
     loop1 noFrontFlags b))))))))))"

text \<open>
  The grouping of the parts branch as the specification words it, not as the code computes
  it: ``repeatedly collecting a part Section followed by the maximal run of
  immediately-following chapter Sections as its children''.  It is compared below with
  what the loop of \<open>GenNAVFile\<close> computes.
\<close>

function specPartGroups :: "SectionData list \<Rightarrow> PartSectionData list" where
  "specPartGroups [] = []"
| "specPartGroups (s # ss) =
     (if EpubType s = ''part''
      then \<lparr>Part = s, Chapters = takeWhile (\<lambda>c. EpubType c = ''chapter'') ss\<rparr> #
           specPartGroups (dropWhile (\<lambda>c. EpubType c = ''chapter'') ss)
      else [])"
  by pat_completeness auto

termination specPartGroups
proof (relation "measure length")
  show "wf (measure length)" by simp
next
  fix s :: SectionData and ss :: "SectionData list"
  have "length (dropWhile (\<lambda>c. EpubType c = ''chapter'') ss) \<le> length ss"
    by (rule length_dropWhile_le)
  then show "(dropWhile (\<lambda>c. EpubType c = ''chapter'') ss, s # ss) \<in> measure length"
    by simp
qed

text \<open>The groups that the loop still has to append when it holds the part \<open>currPart\<close> with
  the chapters \<open>run\<close> and has the Sections \<open>body\<close> before the Section that ends the scan.\<close>

fun closeGroups :: "SectionData \<Rightarrow> SectionData list \<Rightarrow> SectionData list \<Rightarrow> PartSectionData list" where
  "closeGroups currPart run [] = [\<lparr>Part = currPart, Chapters = run\<rparr>]"
| "closeGroups currPart run (s # body) =
     (if EpubType s = ''part''
      then \<lparr>Part = currPart, Chapters = run\<rparr> # closeGroups s [] body
      else closeGroups currPart (run @ [s]) body)"

subsection \<open>Sample inputs\<close>

text \<open>Inputs for the concrete runs below: a header with the mandatory attributes,
  bodies for the scenarios of the specification, and small buffers positioned at a
  directive.\<close>

definition metaTag :: "string \<Rightarrow> string \<Rightarrow> string" where
  "metaTag name content =
     ''<meta name='' @ [CHR 0x22] @ name @ [CHR 0x22] @
     '' content='' @ [CHR 0x22] @ content @ [CHR 0x22] @ ''/>''"

definition sampleHead :: "string list" where
  "sampleHead =
     [''<!DOCTYPE html>'', ''<html>'', ''<head>'', ''<meta charset=utf-8>'',
      metaTag ''version'' ''epub3'', metaTag ''title'' ''T'', metaTag ''title-sort'' ''T'',
      metaTag ''author'' ''A'', metaTag ''author-sort'' ''A'', metaTag ''published'' ''2022'',
      metaTag ''publisher'' ''P'', metaTag ''language'' ''en'',
      metaTag ''cover-image'' ''cover.png'', ''</head>'', ''<body>'']"

definition sampleTime :: string where
  "sampleTime = ''2023-07-22T10:00:00Z''"

definition scenarioA :: "string list" where
  "scenarioA = sampleHead @
     [''<!--copyright-->'', ''<h1>&#160;</h1>'', ''<p>c</p>'',
      ''<!--chapter-->'', ''<h1>One</h1>'', ''<p>a</p>'',
      ''<!--chapter-->'', ''<h1>Two</h1>'', ''<p>b</p>'',
      ''<!--end-->'', ''</body>'', ''</html>'']"

definition scenarioB :: "string list" where
  "scenarioB = sampleHead @
     [''<!--copyright-->'', ''<h1>&#160;</h1>'', ''<p>c</p>'',
      ''<!--part-->'', ''<h1>I</h1>'',
      ''<!--chapter-->'', ''<h1>One</h1>'', ''<p>a</p>'',
      ''<!--chapter-->'', ''<h1>Two</h1>'', ''<p>b</p>'',
      ''<!--part-->'', ''<h1>II</h1>'',
      ''<!--chapter-->'', ''<h1>Three</h1>'', ''<p>c</p>'',
      ''<!--end-->'', ''</body>'', ''</html>'']"

definition scenarioBAppendix :: "string list" where
  "scenarioBAppendix = sampleHead @
     [''<!--copyright-->'', ''<h1>&#160;</h1>'', ''<p>c</p>'',
      ''<!--part-->'', ''<h1>I</h1>'',
      ''<!--chapter-->'', ''<h1>One</h1>'', ''<p>a</p>'',
      ''<!--chapter-->'', ''<h1>Two</h1>'', ''<p>b</p>'',
      ''<!--part-->'', ''<h1>II</h1>'',
      ''<!--chapter-->'', ''<h1>Three</h1>'', ''<p>c</p>'',
      ''<!--appendix-->'', ''<h1>&#160;</h1>'', ''<p>d</p>'',
      ''<!--end-->'', ''</body>'', ''</html>'']"

definition chapterThenPart :: "string list" where
  "chapterThenPart = sampleHead @
     [''<!--copyright-->'', ''<h1>&#160;</h1>'', ''<p>c</p>'',
      ''<!--chapter-->'', ''<h1>One</h1>'', ''<p>a</p>'',
      ''<!--part-->'', ''<h1>I</h1>'',
      ''<!--end-->'', ''</body>'', ''</html>'']"

definition sampleHeadWith :: "string list \<Rightarrow> string list" where
  "sampleHeadWith extra = butlast (butlast sampleHead) @ extra @ [''</head>'', ''<body>'']"

definition scenarioE :: "string list" where
  "scenarioE = sampleHead @
     [''<!--copyright-->'', ''<h1>&#160;</h1>'', ''<p>c</p>'',
      ''<!--chapter-->'', ''<h1>One</h1>'', ''<p>a</p>'',
      ''<!--unknown-->'', ''<h1>U</h1>'',
      ''<!--end-->'', ''</body>'', ''</html>'']"

definition unknownLineBuffer :: InputBuffer where
  "unknownLineBuffer =
     (NewInputBuffer [''<!--unknown-->'', ''<h1>U</h1>''])\<lparr>CurrLine := ''<!--unknown-->''\<rparr>"

definition titlepageNoDot :: "string list" where
  "titlepageNoDot = sampleHeadWith [metaTag ''titlepage'' ''image''] @
     [''<!--copyright-->'', ''<h1>&#160;</h1>'', ''<p>c</p>'',
      ''<!--chapter-->'', ''<h1>One</h1>'', ''<p>a</p>'',
      ''<!--end-->'', ''</body>'', ''</html>'']"

definition imagesNoDot :: "string list" where
  "imagesNoDot = sampleHeadWith [metaTag ''images'' ''image''] @
     [''<!--copyright-->'', ''<h1>&#160;</h1>'', ''<p>c</p>'',
      ''<!--chapter-->'', ''<h1>One</h1>'', ''<p>a</p>'',
      ''<!--end-->'', ''</body>'', ''</html>'']"

definition titlepageTwoDots :: "string list" where
  "titlepageTwoDots = sampleHeadWith [metaTag ''titlepage'' ''t.png.exe''] @
     [''<!--copyright-->'', ''<h1>&#160;</h1>'', ''<p>c</p>'',
      ''<!--chapter-->'', ''<h1>One</h1>'', ''<p>a</p>'',
      ''<!--end-->'', ''</body>'', ''</html>'']"

definition headerOf :: "string \<Rightarrow> InputBuffer" where
  "headerOf line = NewInputBuffer [''<head>'', line, ''</head>'']"

definition metaNoContent :: string where
  "metaNoContent = ''<meta name='' @ [CHR 0x22] @ ''title'' @ [CHR 0x22] @ ''>''"

definition scenarioC :: "string list" where
  "scenarioC = sampleHead @
     [''<!--copyright-->'', ''<h1>&#160;</h1>'', ''<p>c</p>'',
      ''<!--preface-->'', ''<h1>&#160;</h1>'', ''<p>p</p>'',
      ''<!--chapter-->'', ''<h1>One</h1>'', ''<p>a</p>'',
      ''<!--end-->'', ''</body>'', ''</html>'']"

definition prefaceBuffer :: InputBuffer where
  "prefaceBuffer =
     (NewInputBuffer [''<!--preface-->'', ''<h1>&#160;</h1>'', ''<p>p</p>'', ''<!--chapter-->''])
       \<lparr>CurrLine := ''<!--preface-->''\<rparr>"

definition scenarioD :: "string list" where
  "scenarioD = sampleHead @
     [''<!--copyright-->'', ''<h1>&#160;</h1>'', ''<p>c</p>'',
      ''<!--bibliography-->'', ''<h1>Books</h1>'', ''<p>x</p>'',
      ''<!--bibliography-->'']"

definition bibliographyAfterChapter :: "string list" where
  "bibliographyAfterChapter = sampleHead @
     [''<!--copyright-->'', ''<h1>&#160;</h1>'', ''<p>c</p>'',
      ''<!--bibliography-->'', ''<h1>Books</h1>'', ''<p>x</p>'',
      ''<!--chapter-->'', ''<h1>One</h1>'', ''<p>a</p>'',
      ''<!--bibliography-->'', ''<h1>Books</h1>'', ''<p>y</p>'',
      ''<!--end-->'', ''</body>'', ''</html>'']"

definition dupFrontBuffer :: InputBuffer where
  "dupFrontBuffer =
     (NewInputBuffer [''<!--bibliography-->'', ''<h1>Books</h1>'', ''<p>x</p>'',
                      ''<!--bibliography-->''])
       \<lparr>CurrLine := ''<!--bibliography-->''\<rparr>"

definition dupBackBuffer :: InputBuffer where
  "dupBackBuffer =
     (NewInputBuffer [''<!--afterword-->'', ''<h1>&#160;</h1>'', ''<p>x</p>'',
                      ''<!--afterword-->''])
       \<lparr>CurrLine := ''<!--afterword-->''\<rparr>"

definition noBodyMatter :: "string list" where
  "noBodyMatter = sampleHead @
     [''<!--copyright-->'', ''<h1>&#160;</h1>'', ''<p>c</p>'',
      ''<!--preface-->'', ''<h1>&#160;</h1>'', ''<p>p</p>'',
      ''<!--end-->'', ''</body>'', ''</html>'']"

section \<open>Lemmas\<close>

lemma bindE_Inr_iff:
  "bindE m f = Inr y \<longleftrightarrow> (\<exists>x. m = Inr x \<and> f x = Inr y)"
  by (cases m) (simp_all add: bindE_def)

lemma bindE_simps [simp]:
  "bindE (Inl e) f = Inl e" "bindE (Inr x) f = f x"
  by (simp_all add: bindE_def)

lemma skipToLine_moves:
  "skipToLine tag b = Inr b' \<Longrightarrow>
     \<exists>i. lineIndex b < i \<and> i < length (lines b) \<and>
         b' = b\<lparr>lineIndex := i, CurrLine := lines b ! i\<rparr>"
proof (induction tag b arbitrary: b' rule: skipToLine.induct)
  case (1 tag b)
  from "1.prems" obtain b1 where n: "NextLine b = Inr b1"
    by (subst (asm) skipToLine.simps) (auto split: sum.splits)
  note m = NextLine_moves [OF n]
  show ?case
  proof (cases "CurrLine b1 = tag")
    case True
    with "1.prems" n have "b' = b1"
      by (subst (asm) skipToLine.simps) simp
    with m show ?thesis by auto
  next
    case False
    with "1.prems" n have r: "skipToLine tag b1 = Inr b'"
      by (subst (asm) skipToLine.simps) simp
    from "1.IH" [OF n False r] obtain i where
      "lineIndex b1 < i" "i < length (lines b1)" "b' = b1\<lparr>lineIndex := i, CurrLine := lines b1 ! i\<rparr>"
      by blast
    with m have "lineIndex b < i \<and> i < length (lines b) \<and> b' = b\<lparr>lineIndex := i, CurrLine := lines b ! i\<rparr>"
      by auto
    then show ?thesis by blast
  qed
qed

lemma LoadAttributes_moves:
  "LoadAttributes b = Inr b' \<Longrightarrow>
     \<exists>i a. lineIndex b < i \<and> i < length (lines b) \<and>
         b' = b\<lparr>lineIndex := i, CurrLine := lines b ! i, attributes := a\<rparr>"
proof (induction b arbitrary: b' rule: LoadAttributes.induct)
  case (1 b)
  from "1.prems" obtain b1 where n: "NextLine b = Inr b1"
    by (subst (asm) LoadAttributes.simps) (auto split: sum.splits)
  note m = NextLine_moves [OF n]
  show ?case
  proof (cases "CurrLine b1 = ''</head>''")
    case True
    with "1.prems" n have "b' = b1"
      by (subst (asm) LoadAttributes.simps) simp
    with m have "lineIndex b < lineIndex b + 1 \<and> lineIndex b + 1 < length (lines b) \<and>
       b' = b\<lparr>lineIndex := lineIndex b + 1, CurrLine := lines b ! (lineIndex b + 1), attributes := attributes b\<rparr>"
      by auto
    then show ?thesis by blast
  next
    case False
    with "1.prems" n obtain a where a: "LoadAttributesLine (CurrLine b1) (attributes b1) = Inr a"
      and r: "LoadAttributes (b1\<lparr>attributes := a\<rparr>) = Inr b'"
      by (subst (asm) LoadAttributes.simps) (auto split: sum.splits)
    from "1.IH" [OF n False a r] obtain i a' where
      "lineIndex b1 < i" "i < length (lines b1)"
      "b' = b1\<lparr>attributes := a\<rparr>\<lparr>lineIndex := i, CurrLine := lines b1 ! i, attributes := a'\<rparr>"
      by auto
    with m have "lineIndex b < i \<and> i < length (lines b) \<and> b' = b\<lparr>lineIndex := i, CurrLine := lines b ! i, attributes := a'\<rparr>"
      by auto
    then show ?thesis by blast
  qed
qed

lemma frontMatterDirective_step:
  assumes "frontMatterDirective k d b = Inr b'"
  shows "\<exists>i h. lineIndex b < i \<and> i < length (lines b) \<and>
       b' = b\<lparr>lineIndex := i, CurrLine := lines b ! i,
              currSectionNo := currSectionNo b + 1,
              sections := sections b @ [\<lparr>ID = sectionID (currSectionNo b + 1), EpubType = k, Heading = h\<rparr>]\<rparr>"
proof -
  from assms obtain b1 h0 ls where n: "NextLine b = Inr b1"
    and c: "collectSectionLines []
              (b1\<lparr>currSectionNo := currSectionNo b1 + 1,
                   sections := sections b1 @ [\<lparr>ID = sectionID (currSectionNo b1 + 1), EpubType = k,
                       Heading = (if h0 = [] then d else h0)\<rparr>]\<rparr>) = Inr (ls, b')"
    by (auto simp: frontMatterDirective_def bindE_Inr_iff GenFrontMatterSection_def
        NewSectionData_def AddSection_def split: prod.splits)
  from collectSectionLines_moves [OF c] obtain i where
    i: "lineIndex b1 < i" "i < length (lines b1)"
    and b': "b' = b1\<lparr>currSectionNo := currSectionNo b1 + 1,
                   sections := sections b1 @ [\<lparr>ID = sectionID (currSectionNo b1 + 1), EpubType = k,
                       Heading = (if h0 = [] then d else h0)\<rparr>]\<rparr>\<lparr>lineIndex := i, CurrLine := lines b1 ! i\<rparr>"
    by auto
  from NextLine_moves [OF n] i b'
  have "lineIndex b < i \<and> i < length (lines b) \<and>
       b' = b\<lparr>lineIndex := i, CurrLine := lines b ! i,
              currSectionNo := currSectionNo b + 1,
              sections := sections b @ [\<lparr>ID = sectionID (currSectionNo b + 1), EpubType = k,
                 Heading = (if h0 = [] then d else h0)\<rparr>]\<rparr>"
    by auto
  then show ?thesis by blast
qed

lemma frontMatterDirective_appends:
  assumes "frontMatterDirective k d b = Inr b'"
  shows "appendsSection k b b'"
proof -
  from frontMatterDirective_step [OF assms] obtain i h where
    "lineIndex b < i \<and> i < length (lines b) \<and>
       b' = b\<lparr>lineIndex := i, CurrLine := lines b ! i,
              currSectionNo := currSectionNo b + 1,
              sections := sections b @ [\<lparr>ID = sectionID (currSectionNo b + 1), EpubType = k, Heading = h\<rparr>],
              guides := guides b\<rparr>"
    by auto
  then show ?thesis unfolding appendsSection_def by blast
qed

lemma bodyMatterDirective_appends:
  assumes "bodyMatterDirective k fb b = Inr b'"
  shows "appendsSection k b b'"
proof -
  from assms obtain b1 h ls b3 where n: "NextLine b = Inr b1"
    and c: "collectSectionLines []
              (b1\<lparr>currSectionNo := currSectionNo b1 + 1,
                   sections := sections b1 @ [\<lparr>ID = sectionID (currSectionNo b1 + 1), EpubType = k,
                       Heading = h\<rparr>]\<rparr>) = Inr (ls, b3)"
    and b': "b' = (if fb then AddGuide \<lparr>ID = sectionID (currSectionNo b1 + 1), EpubType = k,
                       Heading = h\<rparr> b3 else b3)"
    by (auto simp: bodyMatterDirective_def bindE_Inr_iff GenBodyMatterSection_def
        NewSectionData_def AddSection_def split: prod.splits)
  from collectSectionLines_moves [OF c] obtain i where
    i: "lineIndex b1 < i" "i < length (lines b1)"
    and b3: "b3 = b1\<lparr>currSectionNo := currSectionNo b1 + 1,
                   sections := sections b1 @ [\<lparr>ID = sectionID (currSectionNo b1 + 1), EpubType = k,
                       Heading = h\<rparr>]\<rparr>\<lparr>lineIndex := i, CurrLine := lines b1 ! i\<rparr>"
    by auto
  from NextLine_moves [OF n] i b3 b'
  have "lineIndex b < i \<and> i < length (lines b) \<and>
       b' = b\<lparr>lineIndex := i, CurrLine := lines b ! i,
              currSectionNo := currSectionNo b + 1,
              sections := sections b @ [\<lparr>ID = sectionID (currSectionNo b + 1), EpubType = k, Heading = h\<rparr>],
              guides := guides b'\<rparr>"
    by (auto simp: AddGuide_def)
  then show ?thesis unfolding appendsSection_def by blast
qed

lemma backMatterDirective_appends:
  assumes "backMatterDirective k d fb b = Inr b'"
  shows "appendsSection k b b'"
proof -
  from assms obtain b1 h ls b3 where n: "NextLine b = Inr b1"
    and c: "collectSectionLines []
              (b1\<lparr>currSectionNo := currSectionNo b1 + 1,
                   sections := sections b1 @ [\<lparr>ID = sectionID (currSectionNo b1 + 1), EpubType = k,
                       Heading = h\<rparr>]\<rparr>) = Inr (ls, b3)"
    and b': "b' = (if fb then AddGuide \<lparr>ID = sectionID (currSectionNo b1 + 1), EpubType = k,
                       Heading = h\<rparr> b3 else b3)"
    by (auto simp: backMatterDirective_def bindE_Inr_iff GenBackMatterSection_def
        NewSectionData_def AddSection_def split: prod.splits)
  from collectSectionLines_moves [OF c] obtain i where
    i: "lineIndex b1 < i" "i < length (lines b1)"
    and b3: "b3 = b1\<lparr>currSectionNo := currSectionNo b1 + 1,
                   sections := sections b1 @ [\<lparr>ID = sectionID (currSectionNo b1 + 1), EpubType = k,
                       Heading = h\<rparr>]\<rparr>\<lparr>lineIndex := i, CurrLine := lines b1 ! i\<rparr>"
    by auto
  from NextLine_moves [OF n] i b3 b'
  have "lineIndex b < i \<and> i < length (lines b) \<and>
       b' = b\<lparr>lineIndex := i, CurrLine := lines b ! i,
              currSectionNo := currSectionNo b + 1,
              sections := sections b @ [\<lparr>ID = sectionID (currSectionNo b + 1), EpubType = k, Heading = h\<rparr>],
              guides := guides b'\<rparr>"
    by (auto simp: AddGuide_def)
  then show ?thesis unfolding appendsSection_def by blast
qed

lemma appendsSection_remaining:
  "appendsSection k b b' \<Longrightarrow> length (lines b') - lineIndex b' < length (lines b) - lineIndex b"
  by (auto simp: appendsSection_def)

lemma loop1_stop:
  "CurrLine b \<notin> set (map directiveLine frontKinds) \<Longrightarrow> loop1 f b = Inr b"
  by (subst loop1.simps) (simp add: frontKinds_def directiveLine_def)

lemma loop1_Inr_cases:
  assumes "loop1 f b = Inr b'"
  shows "(CurrLine b \<notin> set (map directiveLine frontKinds) \<and> b' = b) \<or>
         (\<exists>k \<in> set frontKinds. \<exists>f' b1. CurrLine b = directiveLine k \<and>
            appendsSection k b b1 \<and> loop1 f' b1 = Inr b')"
  using assms
  apply (subst (asm) loop1.simps)
  apply (simp add: frontKinds_def directiveLine_def split: if_splits sum.splits)
  apply (blast dest: frontMatterDirective_appends)+
  done

lemma loop1_invariant:
  assumes run: "loop1 f b = Inr b'" and init: "P b"
    and step: "\<And>k b b1. k \<in> set frontKinds \<Longrightarrow> CurrLine b = directiveLine k \<Longrightarrow>
                 appendsSection k b b1 \<Longrightarrow> P b \<Longrightarrow> P b1"
  shows "P b'"
  using run init
proof (induction "length (lines b) - lineIndex b" arbitrary: f b rule: less_induct)
  case less
  from loop1_Inr_cases [OF less.prems(1)] show ?case
  proof
    assume "CurrLine b \<notin> set (map directiveLine frontKinds) \<and> b' = b"
    with less.prems(2) show ?thesis by simp
  next
    assume "\<exists>k \<in> set frontKinds. \<exists>f' b1. CurrLine b = directiveLine k \<and>
            appendsSection k b b1 \<and> loop1 f' b1 = Inr b'"
    then obtain k f' b1 where k: "k \<in> set frontKinds" "CurrLine b = directiveLine k"
      and a: "appendsSection k b b1" and r: "loop1 f' b1 = Inr b'"
      by blast
    from step [OF k a less.prems(2)] have "P b1" .
    with less.hyps [OF appendsSection_remaining [OF a] r] show ?thesis .
  qed
qed

lemma loop2_Inr_cases:
  assumes "loop2 fb b = Inr (fb', b')"
  shows "(CurrLine b \<notin> set (map directiveLine bodyKinds) \<and> b' = b \<and> fb' = fb) \<or>
         (\<exists>k \<in> set bodyKinds. \<exists>b1. CurrLine b = directiveLine k \<and>
            appendsSection k b b1 \<and> loop2 False b1 = Inr (fb', b'))"
  using assms
  apply (subst (asm) loop2.simps)
  apply (simp add: bodyKinds_def directiveLine_def split: if_splits sum.splits)
  apply (blast dest: bodyMatterDirective_appends)+
  done

lemma loop2_invariant:
  assumes run: "loop2 fb b = Inr (fb', b')" and init: "P b"
    and step: "\<And>k b b1. k \<in> set bodyKinds \<Longrightarrow> CurrLine b = directiveLine k \<Longrightarrow>
                 appendsSection k b b1 \<Longrightarrow> P b \<Longrightarrow> P b1"
  shows "P b'"
  using run init
proof (induction "length (lines b) - lineIndex b" arbitrary: fb b rule: less_induct)
  case less
  from loop2_Inr_cases [OF less.prems(1)] show ?case
  proof
    assume "CurrLine b \<notin> set (map directiveLine bodyKinds) \<and> b' = b \<and> fb' = fb"
    with less.prems(2) show ?thesis by simp
  next
    assume "\<exists>k \<in> set bodyKinds. \<exists>b1. CurrLine b = directiveLine k \<and>
            appendsSection k b b1 \<and> loop2 False b1 = Inr (fb', b')"
    then obtain k b1 where k: "k \<in> set bodyKinds" "CurrLine b = directiveLine k"
      and a: "appendsSection k b b1" and r: "loop2 False b1 = Inr (fb', b')"
      by blast
    from step [OF k a less.prems(2)] have "P b1" .
    with less.hyps [OF appendsSection_remaining [OF a] r] show ?thesis .
  qed
qed

lemma loop3_Inr_cases:
  assumes "loop3 f b = Inr b'"
  shows "(CurrLine b = ''<!--end-->'' \<and> b' = b) \<or>
         (\<exists>k \<in> set backKinds. \<exists>f' b1. CurrLine b = directiveLine k \<and>
            appendsSection k b b1 \<and> loop3 f' b1 = Inr b')"
  using assms
  apply (subst (asm) loop3.simps)
  apply (simp add: backKinds_def directiveLine_def split: if_splits sum.splits)
  apply (blast dest: backMatterDirective_appends)+
  done

lemma loop3_invariant:
  assumes run: "loop3 f b = Inr b'" and init: "P b"
    and step: "\<And>k b b1. k \<in> set backKinds \<Longrightarrow> CurrLine b = directiveLine k \<Longrightarrow>
                 appendsSection k b b1 \<Longrightarrow> P b \<Longrightarrow> P b1"
  shows "P b'"
  using run init
proof (induction "length (lines b) - lineIndex b" arbitrary: f b rule: less_induct)
  case less
  from loop3_Inr_cases [OF less.prems(1)] show ?case
  proof
    assume "CurrLine b = ''<!--end-->'' \<and> b' = b"
    with less.prems(2) show ?thesis by simp
  next
    assume "\<exists>k \<in> set backKinds. \<exists>f' b1. CurrLine b = directiveLine k \<and>
            appendsSection k b b1 \<and> loop3 f' b1 = Inr b'"
    then obtain k f' b1 where k: "k \<in> set backKinds" "CurrLine b = directiveLine k"
      and a: "appendsSection k b b1" and r: "loop3 f' b1 = Inr b'"
      by blast
    from step [OF k a less.prems(2)] have "P b1" .
    with less.hyps [OF appendsSection_remaining [OF a] r] show ?thesis .
  qed
qed

lemma sectionsInv_step:
  assumes inv: "sectionsInv b" and k: "k \<in> set directiveKinds"
    and cur: "CurrLine b = directiveLine k" and a: "appendsSection k b b1"
  shows "sectionsInv b1"
proof -
  from a obtain i h g where i: "lineIndex b < i" "i < length (lines b)"
    and b1: "b1 = b\<lparr>lineIndex := i, CurrLine := lines b ! i,
               currSectionNo := currSectionNo b + 1,
               sections := sections b @
                 [\<lparr>ID = sectionID (currSectionNo b + 1), EpubType = k, Heading = h\<rparr>],
               guides := g\<rparr>"
    unfolding appendsSection_def by blast
  from inv cur have mem: "directiveLine k \<in> set (lines b)"
    by (auto simp: sectionsInv_def cursorOK_def)
  from inv have len: "length (sections b) = currSectionNo b + 3" by (simp add: sectionsInv_def)
  show ?thesis
    using inv i k mem len unfolding b1
    by (simp add: sectionsInv_def cursorOK_def)
qed

lemma appendsSection_lines: "appendsSection k b b1 \<Longrightarrow> lines b1 = lines b"
  by (auto simp: appendsSection_def)

lemma CheckCoverImage_frame:
  "CheckCoverImage b = Inr b' \<Longrightarrow> \<exists>c. b' = b\<lparr>coverImage := c\<rparr>"
  by (auto simp: CheckCoverImage_def split: if_splits prod.splits)

lemma CheckImageFiles_frame:
  "CheckImageFiles b = Inr b' \<Longrightarrow> \<exists>m. b' = b\<lparr>images := m\<rparr>"
proof (cases "GetAttribute b ''images'' = []")
  case True
  assume "CheckImageFiles b = Inr b'"
  with True have "b' = b\<lparr>images := images b\<rparr>" by (simp add: CheckImageFiles_def)
  then show ?thesis by blast
next
  case False
  assume "CheckImageFiles b = Inr b'"
  with False show ?thesis by (auto simp: CheckImageFiles_def bindE_Inr_iff)
qed

lemma GenTitlePageSection_frame:
  assumes "GenTitlePageSection b = Inr b'" and "cursorOK b"
  shows "cursorOK b' \<and> lines b' = lines b \<and> currSectionNo b' = currSectionNo b \<and>
         sections b' = sections b @ [titlePageSection]"
proof -
  let ?b1 = "b\<lparr>sections := sections b @ [titlePageSection],
                guides := guides b @ [titlePageSection]\<rparr>"
  from assms(1) consider "b' = ?b1"
    | b2 b3 ls where "NextLine ?b1 = Inr b2" "NextLine b2 = Inr b3"
        "collectSectionLines [] b3 = Inr (ls, b')"
    by (auto simp: GenTitlePageSection_def Let_def bindE_Inr_iff GenFrontMatterSection_def
          split: if_splits prod.splits)
  then show ?thesis
  proof cases
    case 1
    with assms(2) show ?thesis by (simp add: cursorOK_def)
  next
    case 2
    from NextLine_moves [OF 2(1)] NextLine_moves [OF 2(2)] collectSectionLines_moves [OF 2(3)]
    show ?thesis by (auto simp: cursorOK_def)
  qed
qed

lemma GenCopyrightSection_frame:
  assumes "GenCopyrightSection d b = Inr b'"
  shows "cursorOK b' \<and> lines b' = lines b \<and> currSectionNo b' = currSectionNo b \<and>
         sections b' = sections b @ [copyrightSection]"
proof -
  from assms obtain b1 ls where n: "NextLine b = Inr b1"
    and c: "collectSectionLines [] (b1\<lparr>sections := sections b1 @ [copyrightSection]\<rparr>) = Inr (ls, b')"
    by (auto simp: GenCopyrightSection_def bindE_Inr_iff split: if_splits prod.splits)
  from NextLine_moves [OF n] collectSectionLines_moves [OF c]
  show ?thesis by (auto simp: cursorOK_def)
qed

lemma parse_stages:
  assumes "parse ts ls = Inr b"
  obtains b3 b4 b5 where "sectionsInv b3" "lines b3 = ls"
    "loop1 noFrontFlags b3 = Inr b4" "loop2 True b4 = Inr (False, b5)"
    "loop3 initBackFlags b5 = Inr b"
proof -
  from assms obtain a1 a2 a3 a4 a6 a7 a8 b3 b4 fb b5 where
        s1: "skipToLine ''<head>'' (NewInputBuffer ls) = Inr a1"
    and s2: "LoadAttributes a1 = Inr a2"
    and s3: "CheckCoverImage a2 = Inr a3"
    and s4: "CheckImageFiles a3 = Inr a4"
    and s6: "skipToLine ''<body>'' (SetAttribute ''modified'' ts
                  (if GetAttribute a4 ''created'' = []
                   then SetAttribute ''created'' ts a4 else a4)) = Inr a6"
    and s7: "NextLine a6 = Inr a7"
    and s8: "GenTitlePageSection (GenCoverSection a7) = Inr a8"
    and s9: "GenCopyrightSection (take 10 ts) a8 = Inr b3"
    and l1: "loop1 noFrontFlags b3 = Inr b4"
    and l2: "loop2 True b4 = Inr (fb, b5)"
    and l3: "(if fb then Inl NoChapterSpecified else loop3 initBackFlags b5) = Inr b"
    unfolding parse_def bindE_Inr_iff by (auto split: prod.splits)
  from l3 have fb: "fb = False" and l3': "loop3 initBackFlags b5 = Inr b"
    by (auto split: if_splits)
  from skipToLine_moves [OF s1] have a1: "lines a1 = ls" "sections a1 = []" "currSectionNo a1 = 0"
    by (auto simp: NewInputBuffer_def)
  from LoadAttributes_moves [OF s2] a1 have a2: "lines a2 = ls" "sections a2 = []" "currSectionNo a2 = 0"
    by auto
  from CheckCoverImage_frame [OF s3] a2 have a3: "lines a3 = ls" "sections a3 = []" "currSectionNo a3 = 0"
    by auto
  from CheckImageFiles_frame [OF s4] a3 have a4: "lines a4 = ls" "sections a4 = []" "currSectionNo a4 = 0"
    by auto
  from skipToLine_moves [OF s6] a4 have a6: "lines a6 = ls" "sections a6 = []" "currSectionNo a6 = 0"
    by (auto simp: SetAttribute_def)
  from NextLine_moves [OF s7] a6 have a7: "lines a7 = ls" "sections a7 = []" "currSectionNo a7 = 0"
    "cursorOK a7"
    by (auto simp: cursorOK_def)
  from a7 have c7: "cursorOK (GenCoverSection a7)" "lines (GenCoverSection a7) = ls"
    "sections (GenCoverSection a7) = [coverSection]" "currSectionNo (GenCoverSection a7) = 0"
    by (simp_all add: GenCoverSection_def cursorOK_def)
  from GenTitlePageSection_frame [OF s8 c7(1)] c7 have a8: "lines a8 = ls"
    "sections a8 = [coverSection, titlePageSection]" "currSectionNo a8 = 0"
    by auto
  from GenCopyrightSection_frame [OF s9] a8 have b3: "cursorOK b3" "lines b3 = ls"
    "sections b3 = [coverSection, titlePageSection, copyrightSection]" "currSectionNo b3 = 0"
    by auto
  then have "sectionsInv b3" by (simp add: sectionsInv_def)
  with b3(2) l1 l2 l3' fb that show thesis by blast
qed

lemma kinds_subset:
  "set frontKinds \<subseteq> set directiveKinds" "set bodyKinds \<subseteq> set directiveKinds"
  "set backKinds \<subseteq> set directiveKinds"
  by (auto simp: directiveKinds_def)

lemma parse_sectionsInv:
  assumes "parse ts ls = Inr b"
  shows "sectionsInv b \<and> lines b = ls"
proof -
  from assms obtain b3 b4 b5 where b3: "sectionsInv b3 \<and> lines b3 = ls"
    and l1: "loop1 noFrontFlags b3 = Inr b4" and l2: "loop2 True b4 = Inr (False, b5)"
    and l3: "loop3 initBackFlags b5 = Inr b"
    by (auto elim: parse_stages)
  have b4: "sectionsInv b4 \<and> lines b4 = ls"
    by (rule loop1_invariant [where P = "\<lambda>b. sectionsInv b \<and> lines b = ls", OF l1])
       (use b3 kinds_subset in \<open>auto intro: sectionsInv_step simp: appendsSection_lines\<close>)
  have b5: "sectionsInv b5 \<and> lines b5 = ls"
    by (rule loop2_invariant [where P = "\<lambda>b. sectionsInv b \<and> lines b = ls", OF l2])
       (use b4 kinds_subset in \<open>auto intro: sectionsInv_step simp: appendsSection_lines\<close>)
  show ?thesis
    by (rule loop3_invariant [where P = "\<lambda>b. sectionsInv b \<and> lines b = ls", OF l3])
       (use b5 kinds_subset in \<open>auto intro: sectionsInv_step simp: appendsSection_lines\<close>)
qed

lemma scenarioA_sections:
  "map_sum id sections (parse sampleTime scenarioA) =
     Inr [coverSection, titlePageSection, copyrightSection,
          \<lparr>ID = ''section001'', EpubType = ''chapter'', Heading = ''One''\<rparr>,
          \<lparr>ID = ''section002'', EpubType = ''chapter'', Heading = ''Two''\<rparr>]"
  by code_simp

lemma map_sum_sections_InrD:
  "map_sum id sections r = Inr ss \<Longrightarrow> \<exists>b. r = Inr b \<and> sections b = ss"
  by (cases r) auto

lemma digitVal_digitChar: "d < 10 \<Longrightarrow> digitVal (digitChar d) = d"
proof -
  assume "d < 10"
  then have "d \<in> {0, 1, 2, 3, 4, 5, 6, 7, 8, 9}" by auto
  then show ?thesis
    by (elim insertE emptyE) (simp_all add: digitChar_def digitVal_def)
qed

lemma readDecimal_snoc: "readDecimal (s @ [c]) = 10 * readDecimal s + digitVal c"
  by (simp add: readDecimal_def)

lemma readDecimal_decimal: "readDecimal (decimal n) = n"
proof (induction n rule: decimal.induct)
  case (1 n)
  show ?case
  proof (cases "n < 10")
    case True
    then show ?thesis
      by (subst decimal.simps) (simp add: readDecimal_def digitVal_digitChar)
  next
    case False
    with 1 have "readDecimal (decimal (n div 10)) = n div 10" by simp
    with False show ?thesis
      by (subst decimal.simps) (simp add: readDecimal_snoc digitVal_digitChar)
  qed
qed

lemma readDecimal_zeros: "readDecimal (replicate k (CHR ''0'') @ s) = readDecimal s"
proof (induction k)
  case 0
  show ?case by simp
next
  case (Suc k)
  have "foldl (\<lambda>a c. 10 * a + digitVal c) 0 (CHR ''0'' # replicate k (CHR ''0'') @ s)
      = foldl (\<lambda>a c. 10 * a + digitVal c) 0 (replicate k (CHR ''0'') @ s)"
    by (simp add: digitVal_def)
  with Suc show ?case by (simp add: readDecimal_def)
qed

lemma readDecimal_sectionID: "readDecimal (drop 7 (sectionID n)) = n"
  by (simp add: sectionID_def readDecimal_zeros readDecimal_decimal)

lemma sectionID_inj:
  assumes e: "sectionID m = sectionID n"
  shows "m = n"
proof -
  have "m = readDecimal (drop 7 (sectionID m))" by (rule readDecimal_sectionID [symmetric])
  also have "\<dots> = readDecimal (drop 7 (sectionID n))" by (simp only: e)
  also have "\<dots> = n" by (rule readDecimal_sectionID)
  finally show ?thesis .
qed

lemma sectionID_not_fixed:
  "sectionID n \<noteq> ''cover''" "sectionID n \<noteq> ''titlepage''" "sectionID n \<noteq> ''copyright''"
  by (simp_all add: sectionID_def)

lemma fixed_notin:
  "''cover'' \<notin> set (map sectionID xs)" "''titlepage'' \<notin> set (map sectionID xs)"
  "''copyright'' \<notin> set (map sectionID xs)"
  by (simp_all add: image_iff sectionID_not_fixed [symmetric])

lemma nth_ids:
  assumes "1 \<le> n" "n \<le> c"
  shows "map sectionID [1..<c + 1] ! (n - 1) = sectionID n"
proof -
  from assms obtain m where m: "n = Suc m" by (cases n) auto
  with assms have "m < length [1..<c + 1]" by simp
  then have "map sectionID [1..<c + 1] ! m = sectionID ([1..<c + 1] ! m)" by (rule nth_map)
  also from m assms have "[1..<c + 1] ! m = n" by (simp del: upt_Suc)
  finally show ?thesis using m by simp
qed

lemma distinct_sectionIDs: "distinct (map sectionID [i..<j])"
proof -
  have "inj_on sectionID (set [i..<j])"
    by (rule inj_onI) (rule sectionID_inj)
  then show ?thesis by (simp only: distinct_map distinct_upt simp_thms)
qed

lemma dist3: "distinct ([''cover'', ''titlepage'', ''copyright''] @ map sectionID [i..<j])"
proof -
  have a: "distinct [''cover'', ''titlepage'', ''copyright'']" by simp
  have b: "set [''cover'', ''titlepage'', ''copyright''] \<inter> set (map sectionID [i..<j]) = {}"
    by (simp only: list.set Int_insert_left_if0 Int_empty_left fixed_notin not_False_eq_True)
  from a b distinct_sectionIDs [of i j] show ?thesis
    by (simp only: distinct_append simp_thms)
qed

lemma rangeScan_first_body:
  assumes "list_all (\<lambda>s. \<not> isBodyKind s) front" and "isBodyKind p"
  shows "rangeScan i0 s0 i (front @ p # rest) = (i + length front, p)"
  using assms
  by (induction front arbitrary: i0 s0 i) (simp_all add: isBodyKind_def)

lemma slice_take: "n \<le> length xs \<Longrightarrow> slice xs 0 (int n) = Inr (take n xs)"
  by (simp add: slice_def)

lemma slice_empty: "n \<le> length xs \<Longrightarrow> slice xs (int n) (int n) = Inr []"
  by (simp add: slice_def)

lemma sliceFrom_drop: "n \<le> length xs \<Longrightarrow> sliceFrom xs (int n) = Inr (drop n xs)"
  by (simp add: sliceFrom_def slice_def)

lemma slice_Inr: "lo \<le> hi \<Longrightarrow> hi \<le> length xs \<Longrightarrow> \<exists>ys. slice xs (int lo) (int hi) = Inr ys"
  by (simp add: slice_def)

lemma partsLoop_out_of_range:
  assumes "firstTime \<or> startIndex \<le> index"
    and "\<forall>j. index \<le> j \<and> j < length ss \<longrightarrow> isBodyKind (ss ! j)"
  shows "partsLoop ss index firstTime currPart startIndex partSections = Inl IndexOutOfRange"
  using assms
proof (induction ss index firstTime currPart startIndex partSections rule: partsLoop.induct)
  case (1 ss index firstTime currPart startIndex partSections)
  show ?case
  proof (cases "length ss \<le> index")
    case True
    then show ?thesis by (subst partsLoop.simps) simp
  next
    case False
    with "1.prems"(2) have body: "isBodyKind (ss ! index)" by simp
    from "1.prems"(2) have rest: "\<forall>j. index + 1 \<le> j \<and> j < length ss \<longrightarrow> isBodyKind (ss ! j)"
      by simp
    show ?thesis
    proof (cases "EpubType (ss ! index) = ''part''")
      case part: True
      show ?thesis
      proof (cases firstTime)
        case True
        from "1.IH"(1) [OF False part True _ rest] False part True
        show ?thesis by (subst partsLoop.simps) simp
      next
        case ft: False
        with "1.prems"(1) False obtain chapters where
          c: "slice ss (int startIndex) (int index) = Inr chapters"
          using slice_Inr [of startIndex index ss] by auto
        from "1.IH"(2) [OF False part ft c _ rest] False part ft c
        show ?thesis by (subst partsLoop.simps) simp
      qed
    next
      case nopart: False
      with body have ch: "EpubType (ss ! index) = ''chapter''" by (simp add: isBodyKind_def)
      from "1.prems"(1) have "firstTime \<or> startIndex \<le> index + 1" by auto
      from "1.IH"(3) [OF False nopart _ this rest] False nopart ch
      show ?thesis by (subst partsLoop.simps) simp
    qed
  qed
qed

lemma partsLoop_stops:
  assumes "startIndex \<le> index" and "index \<le> j" and "j < length ss"
    and "\<not> isBodyKind (ss ! j)"
    and "\<forall>i. index \<le> i \<and> i < j \<longrightarrow> isBodyKind (ss ! i)"
  shows "\<exists>groups. partsLoop ss index firstTime currPart startIndex partSections = Inr (j, groups)"
  using assms
proof (induction ss index firstTime currPart startIndex partSections rule: partsLoop.induct)
  case (1 ss index firstTime currPart startIndex partSections)
  from "1.prems" have inb: "\<not> length ss \<le> index" by simp
  from "1.prems"(1) inb obtain chapters where
    c: "slice ss (int startIndex) (int index) = Inr chapters"
    using slice_Inr [of startIndex index ss] by auto
  show ?case
  proof (cases "index = j")
    case True
    with "1.prems"(4) have "EpubType (ss ! index) \<noteq> ''part''" "EpubType (ss ! index) \<noteq> ''chapter''"
      by (simp_all add: isBodyKind_def)
    with inb c True show ?thesis by (subst partsLoop.simps) simp
  next
    case False
    with "1.prems" have lt: "index < j" and body: "isBodyKind (ss ! index)"
      and le: "index + 1 \<le> j"
      and rest: "\<forall>i. index + 1 \<le> i \<and> i < j \<longrightarrow> isBodyKind (ss ! i)"
      by simp_all
    show ?thesis
    proof (cases "EpubType (ss ! index) = ''part''")
      case part: True
      show ?thesis
      proof (cases firstTime)
        case True
        from "1.IH"(1) [OF inb part True _ le "1.prems"(3,4) rest] inb part True
        show ?thesis by (subst partsLoop.simps) simp
      next
        case ft: False
        from "1.IH"(2) [OF inb part ft c _ le "1.prems"(3,4) rest] inb part ft c
        show ?thesis by (subst partsLoop.simps) simp
      qed
    next
      case nopart: False
      with body have ch: "EpubType (ss ! index) = ''chapter''" by (simp add: isBodyKind_def)
      from "1.prems"(1) have "startIndex \<le> index + 1" by simp
      from "1.IH"(3) [OF inb nopart _ this le "1.prems"(3,4) rest] inb nopart ch
      show ?thesis by (subst partsLoop.simps) simp
    qed
  qed
qed

lemma GenNAVFile_parts_branch:
  assumes ss: "sections b = front @ p # rest"
    and front: "list_all (\<lambda>s. \<not> isBodyKind s) front"
    and p: "EpubType p = ''part''"
  shows "GenNAVFile b =
     bindE (partsLoop (sections b) (length front) True zeroSection 0 [])
       (\<lambda>(index', partSections).
          bindE (sliceFrom (sections b) (int index')) (\<lambda>backSections.
            Inr \<lparr>Title = GetAttribute b ''title'', FrontSections = front, HasParts = True,
                 PartSections = partSections, ChapterSections = [],
                 BackSections = backSections, Guides = guides b\<rparr>))"
proof -
  from p have body: "isBodyKind p" by (simp add: isBodyKind_def)
  have r: "rangeScan 0 zeroSection 0 (sections b) = (length front, p)"
    unfolding ss using rangeScan_first_body [OF front body, of 0 zeroSection 0 rest] by simp
  have f: "slice (sections b) 0 (int (length front)) = Inr front"
    unfolding ss using slice_take [of "length front" "front @ p # rest"] by simp
  show ?thesis
    unfolding GenNAVFile_def r prod.case f bindE_simps
    by (cases "partsLoop (sections b) (length front) True zeroSection 0 []")
       (simp_all add: p split: prod.splits)
qed

lemma GenNAVFile_chapters_branch:
  assumes ss: "sections b = front @ c # rest"
    and front: "list_all (\<lambda>s. \<not> isBodyKind s) front"
    and c: "EpubType c = ''chapter''"
  shows "GenNAVFile b =
     Inr \<lparr>Title = GetAttribute b ''title'', FrontSections = front, HasParts = False,
          PartSections = [], ChapterSections = [],
          BackSections = c # rest, Guides = guides b\<rparr>"
proof -
  from c have body: "isBodyKind c" by (simp add: isBodyKind_def)
  have r: "rangeScan 0 zeroSection 0 (sections b) = (length front, c)"
    unfolding ss using rangeScan_first_body [OF front body, of 0 zeroSection 0 rest] by simp
  have f: "slice (sections b) 0 (int (length front)) = Inr front"
    unfolding ss using slice_take [of "length front" "front @ c # rest"] by simp
  have l: "chaptersLoop (sections b) (length front) = Inr (length front)"
    unfolding ss by (simp add: chaptersLoop_def)
  have e: "slice (sections b) (int (length front)) (int (length front)) = Inr []"
    unfolding ss using slice_empty [of "length front" "front @ c # rest"] by simp
  have d: "sliceFrom (sections b) (int (length front)) = Inr (c # rest)"
    unfolding ss using sliceFrom_drop [of "length front" "front @ c # rest"] by simp
  show ?thesis
    unfolding GenNAVFile_def r prod.case f bindE_simps
    by (simp add: c l e d)
qed

lemma not_body_conv:
  "(\<forall>s \<in> set xs. EpubType s \<noteq> ''part'' \<and> EpubType s \<noteq> ''chapter'') = list_all (\<lambda>s. \<not> isBodyKind s) xs"
  by (simp add: list_all_iff isBodyKind_def)

lemma scenarioB_sections:
  "map_sum id sections (parse sampleTime scenarioB) =
     Inr [coverSection, titlePageSection, copyrightSection,
          \<lparr>ID = ''section001'', EpubType = ''part'', Heading = ''I''\<rparr>,
          \<lparr>ID = ''section002'', EpubType = ''chapter'', Heading = ''One''\<rparr>,
          \<lparr>ID = ''section003'', EpubType = ''chapter'', Heading = ''Two''\<rparr>,
          \<lparr>ID = ''section004'', EpubType = ''part'', Heading = ''II''\<rparr>,
          \<lparr>ID = ''section005'', EpubType = ''chapter'', Heading = ''Three''\<rparr>]"
  by code_simp

lemma scenarioBAppendix_sections:
  "map_sum id sections (parse sampleTime scenarioBAppendix) =
     Inr [coverSection, titlePageSection, copyrightSection,
          \<lparr>ID = ''section001'', EpubType = ''part'', Heading = ''I''\<rparr>,
          \<lparr>ID = ''section002'', EpubType = ''chapter'', Heading = ''One''\<rparr>,
          \<lparr>ID = ''section003'', EpubType = ''chapter'', Heading = ''Two''\<rparr>,
          \<lparr>ID = ''section004'', EpubType = ''part'', Heading = ''II''\<rparr>,
          \<lparr>ID = ''section005'', EpubType = ''chapter'', Heading = ''Three''\<rparr>,
          \<lparr>ID = ''section006'', EpubType = ''appendix'', Heading = ''Appendix''\<rparr>]"
  by code_simp

lemma chapterThenPart_sections:
  "map_sum id sections (parse sampleTime chapterThenPart) =
     Inr [coverSection, titlePageSection, copyrightSection,
          \<lparr>ID = ''section001'', EpubType = ''chapter'', Heading = ''One''\<rparr>,
          \<lparr>ID = ''section002'', EpubType = ''part'', Heading = ''I''\<rparr>]"
  by code_simp

lemma fixed_not_body:
  "list_all (\<lambda>s. \<not> isBodyKind s) [coverSection, titlePageSection, copyrightSection]"
  by (simp add: isBodyKind_def coverSection_def titlePageSection_def copyrightSection_def)

lemma map_sum_InlD: "map_sum id f r = Inl e \<Longrightarrow> r = Inl e"
  by (cases r) auto

lemma scenarioE_error:
  "map_sum id sections (parse sampleTime scenarioE) = Inl (UnknownDirective ''<!--unknown-->'')"
  by code_simp

lemma titlepageNoDot_error:
  "map_sum id sections (parse sampleTime titlepageNoDot) = Inl IndexOutOfRange"
  by code_simp

lemma imagesNoDot_error:
  "map_sum id sections (parse sampleTime imagesNoDot) = Inl UnsupportedImageExtension"
  by code_simp

lemma titlepageTwoDots_accepted:
  "map_sum id (map EpubType \<circ> sections) (parse sampleTime titlepageTwoDots) =
     Inr [''cover'', ''titlepage'', ''copyright-page'', ''chapter'']"
  by code_simp

lemma LoadAttributes_step:
  assumes "NextLine b = Inr b1" and "CurrLine b1 \<noteq> ''</head>''"
  shows "LoadAttributes b =
           (case LoadAttributesLine (CurrLine b1) (attributes b1) of
              Inl e \<Rightarrow> Inl e
            | Inr attrs \<Rightarrow> LoadAttributes (b1\<lparr>attributes := attrs\<rparr>))"
  using assms by (subst LoadAttributes.simps) simp

lemma headerOf_NextLine:
  "NextLine (headerOf line) = Inr ((headerOf line)\<lparr>lineIndex := 1, CurrLine := line\<rparr>)"
  by (simp add: headerOf_def NextLine_def NewInputBuffer_def)

lemma headerOf_close:
  "LoadAttributes ((headerOf line)\<lparr>lineIndex := 1, CurrLine := line\<rparr>) =
     Inr ((headerOf line)\<lparr>lineIndex := 2, CurrLine := ''</head>''\<rparr>)"
  by (subst LoadAttributes.simps) (simp add: headerOf_def NextLine_def NewInputBuffer_def)

lemma loop1_sections_prefix:
  assumes "loop1 f b = Inr b'"
  shows "\<exists>new. sections b' = sections b @ new"
proof (rule loop1_invariant [where P = "\<lambda>x. \<exists>new. sections x = sections b @ new", OF assms])
  show "\<exists>new. sections b = sections b @ new" by simp
next
  fix k x x1
  assume "appendsSection k x x1" and "\<exists>new. sections x = sections b @ new"
  then show "\<exists>new. sections x1 = sections b @ new"
    by (auto simp: appendsSection_def)
qed

lemma extractHeading_sentinel: "extractHeading ''<h1>&#160;</h1>'' = Inr []"
  by (simp add: extractHeading_def HasPrefix_def Index_def slice_def)

lemma scenarioC_sections:
  "map_sum id sections (parse sampleTime scenarioC) =
     Inr [coverSection, titlePageSection, copyrightSection,
          \<lparr>ID = ''section001'', EpubType = ''preface'', Heading = ''Preface''\<rparr>,
          \<lparr>ID = ''section002'', EpubType = ''chapter'', Heading = ''One''\<rparr>]"
  by code_simp

lemma prefaceBuffer_run:
  "loop1 noFrontFlags prefaceBuffer =
     Inr (prefaceBuffer\<lparr>lineIndex := 3, CurrLine := ''<!--chapter-->'', currSectionNo := 1,
            sections := [\<lparr>ID = ''section001'', EpubType = ''preface'', Heading = ''Preface''\<rparr>]\<rparr>)"
  by (simp add: loop1.simps prefaceBuffer_def NewInputBuffer_def noFrontFlags_def
        frontMatterDirective_def NextLine_def extractHeading_def HasPrefix_def Index_def
        slice_def NewSectionData_def AddSection_def GenFrontMatterSection_def
        collectSectionLines.simps sectionID_def decimal.simps digitChar_def numeral_2_eq_2)

lemma loop1_at:
  assumes "k \<in> set frontKinds" and "CurrLine b = directiveLine k"
  shows "loop1 f b =
     (if frontGiven f k then Inl (DuplicateDirective k)
      else (case frontMatterDirective k (frontLabel k) b of
              Inl e \<Rightarrow> Inl e
            | Inr b1 \<Rightarrow> loop1 (setFrontGiven k f) b1))"
proof -
  have *: "loop1 f b =
     (if frontGiven f k' then Inl (DuplicateDirective k')
      else (case frontMatterDirective k' (frontLabel k') b of
              Inl e \<Rightarrow> Inl e
            | Inr b1 \<Rightarrow> loop1 (setFrontGiven k' f) b1))"
    if "CurrLine b = ''<!--'' @ k' @ ''-->''" and
      "k' = ''bibliography'' \<or> k' = ''acknowledgments'' \<or> k' = ''dedication'' \<or>
       k' = ''epigraph'' \<or> k' = ''foreword'' \<or> k' = ''introduction'' \<or>
       k' = ''preface'' \<or> k' = ''prologue'' \<or> k' = ''preamble''" for k'
    using that(2)
  proof (elim disjE)
    assume "k' = ''bibliography''"
    with that(1) have c: "CurrLine b = ''<!--bibliography-->''" by simp
    show ?thesis
      unfolding \<open>k' = ''bibliography''\<close>
      by (subst loop1.simps)
         (simp add: c frontGiven_def setFrontGiven_def frontLabel_def cong: sum.case_cong)
  next
    assume "k' = ''acknowledgments''"
    with that(1) have c: "CurrLine b = ''<!--acknowledgments-->''" by simp
    show ?thesis
      unfolding \<open>k' = ''acknowledgments''\<close>
      by (subst loop1.simps)
         (simp add: c frontGiven_def setFrontGiven_def frontLabel_def cong: sum.case_cong)
  next
    assume "k' = ''dedication''"
    with that(1) have c: "CurrLine b = ''<!--dedication-->''" by simp
    show ?thesis
      unfolding \<open>k' = ''dedication''\<close>
      by (subst loop1.simps)
         (simp add: c frontGiven_def setFrontGiven_def frontLabel_def cong: sum.case_cong)
  next
    assume "k' = ''epigraph''"
    with that(1) have c: "CurrLine b = ''<!--epigraph-->''" by simp
    show ?thesis
      unfolding \<open>k' = ''epigraph''\<close>
      by (subst loop1.simps)
         (simp add: c frontGiven_def setFrontGiven_def frontLabel_def cong: sum.case_cong)
  next
    assume "k' = ''foreword''"
    with that(1) have c: "CurrLine b = ''<!--foreword-->''" by simp
    show ?thesis
      unfolding \<open>k' = ''foreword''\<close>
      by (subst loop1.simps)
         (simp add: c frontGiven_def setFrontGiven_def frontLabel_def cong: sum.case_cong)
  next
    assume "k' = ''introduction''"
    with that(1) have c: "CurrLine b = ''<!--introduction-->''" by simp
    show ?thesis
      unfolding \<open>k' = ''introduction''\<close>
      by (subst loop1.simps)
         (simp add: c frontGiven_def setFrontGiven_def frontLabel_def cong: sum.case_cong)
  next
    assume "k' = ''preface''"
    with that(1) have c: "CurrLine b = ''<!--preface-->''" by simp
    show ?thesis
      unfolding \<open>k' = ''preface''\<close>
      by (subst loop1.simps)
         (simp add: c frontGiven_def setFrontGiven_def frontLabel_def cong: sum.case_cong)
  next
    assume "k' = ''prologue''"
    with that(1) have c: "CurrLine b = ''<!--prologue-->''" by simp
    show ?thesis
      unfolding \<open>k' = ''prologue''\<close>
      by (subst loop1.simps)
         (simp add: c frontGiven_def setFrontGiven_def frontLabel_def cong: sum.case_cong)
  next
    assume "k' = ''preamble''"
    with that(1) have c: "CurrLine b = ''<!--preamble-->''" by simp
    show ?thesis
      unfolding \<open>k' = ''preamble''\<close>
      by (subst loop1.simps)
         (simp add: c frontGiven_def setFrontGiven_def frontLabel_def cong: sum.case_cong)
  qed
  from assms(1) have "k = ''bibliography'' \<or> k = ''acknowledgments'' \<or> k = ''dedication'' \<or>
       k = ''epigraph'' \<or> k = ''foreword'' \<or> k = ''introduction'' \<or>
       k = ''preface'' \<or> k = ''prologue'' \<or> k = ''preamble''"
    unfolding frontKinds_def by simp
  with assms(2) show ?thesis by (intro *) (simp_all add: directiveLine_def)
qed

lemma loop3_at:
  assumes "k \<in> set backKinds" and "CurrLine b = directiveLine k"
  shows "loop3 f b =
     (if backGiven f k then Inl (DuplicateDirective k)
      else (case backMatterDirective k (backLabel k) (firstBackmatter f) b of
              Inl e \<Rightarrow> Inl e
            | Inr b1 \<Rightarrow> loop3 (setBackGiven k f) b1))"
proof -
  have *: "loop3 f b =
     (if backGiven f k' then Inl (DuplicateDirective k')
      else (case backMatterDirective k' (backLabel k') (firstBackmatter f) b of
              Inl e \<Rightarrow> Inl e
            | Inr b1 \<Rightarrow> loop3 (setBackGiven k' f) b1))"
    if "CurrLine b = ''<!--'' @ k' @ ''-->''" and
      "k' = ''afterword'' \<or> k' = ''epilogue'' \<or> k' = ''appendix''" for k'
    using that(2)
  proof (elim disjE)
    assume "k' = ''afterword''"
    with that(1) have c: "CurrLine b = ''<!--afterword-->''" by simp
    show ?thesis
      unfolding \<open>k' = ''afterword''\<close>
      by (subst loop3.simps)
         (simp add: c backGiven_def setBackGiven_def backLabel_def cong: sum.case_cong)
  next
    assume "k' = ''epilogue''"
    with that(1) have c: "CurrLine b = ''<!--epilogue-->''" by simp
    show ?thesis
      unfolding \<open>k' = ''epilogue''\<close>
      by (subst loop3.simps)
         (simp add: c backGiven_def setBackGiven_def backLabel_def cong: sum.case_cong)
  next
    assume "k' = ''appendix''"
    with that(1) have c: "CurrLine b = ''<!--appendix-->''" by simp
    show ?thesis
      unfolding \<open>k' = ''appendix''\<close>
      by (subst loop3.simps)
         (simp add: c backGiven_def setBackGiven_def backLabel_def cong: sum.case_cong)
  qed
  from assms(1) have "k = ''afterword'' \<or> k = ''epilogue'' \<or> k = ''appendix''"
    unfolding backKinds_def by simp
  with assms(2) show ?thesis by (intro *) (simp_all add: directiveLine_def)
qed

lemma loop1Reaches_loop1: "loop1Reaches f b f' b' \<Longrightarrow> loop1 f b = loop1 f' b'"
  by (induction rule: loop1Reaches.induct) (simp_all add: loop1_at)

lemma loop3Reaches_loop3: "loop3Reaches f b f' b' \<Longrightarrow> loop3 f b = loop3 f' b'"
  by (induction rule: loop3Reaches.induct) (simp_all add: loop3_at)

lemma frontGiven_set: "frontGiven f k \<Longrightarrow> frontGiven (setFrontGiven k' f) k"
  unfolding frontGiven_def setFrontGiven_def by (simp split: if_splits)

lemma backGiven_set: "backGiven f k \<Longrightarrow> backGiven (setBackGiven k' f) k"
  unfolding backGiven_def setBackGiven_def by (simp split: if_splits)

lemma frontGiven_after: "k \<in> set frontOnceKinds \<Longrightarrow> frontGiven (setFrontGiven k f) k"
  by (auto simp: frontOnceKinds_def frontGiven_def setFrontGiven_def)

lemma backGiven_after: "k \<in> set backOnceKinds \<Longrightarrow> backGiven (setBackGiven k f) k"
  by (auto simp: backOnceKinds_def backGiven_def setBackGiven_def)

lemma loop1Reaches_given: "loop1Reaches f b f' b' \<Longrightarrow> frontGiven f k \<Longrightarrow> frontGiven f' k"
  by (induction rule: loop1Reaches.induct) (simp_all add: frontGiven_set)

lemma loop3Reaches_given: "loop3Reaches f b f' b' \<Longrightarrow> backGiven f k \<Longrightarrow> backGiven f' k"
  by (induction rule: loop3Reaches.induct) (simp_all add: backGiven_set)

lemma once_kinds_subset:
  "set frontOnceKinds \<subseteq> set frontKinds" "set backOnceKinds \<subseteq> set backKinds"
  by (auto simp: frontOnceKinds_def frontKinds_def backOnceKinds_def backKinds_def)

lemma loop1_second_occurrence:
  assumes k: "k \<in> set frontOnceKinds" and cur: "CurrLine b = directiveLine k"
    and first: "frontMatterDirective k (frontLabel k) b = Inr b1"
    and reach: "loop1Reaches (setFrontGiven k f) b1 f' b'"
    and again: "CurrLine b' = directiveLine k"
  shows "loop1 f b = Inl (DuplicateDirective k)"
proof -
  from k once_kinds_subset have kf: "k \<in> set frontKinds" by blast
  from loop1Reaches_given [OF reach frontGiven_after [OF k]] have g: "frontGiven f' k" .
  have "loop1 f b = (if frontGiven f k then Inl (DuplicateDirective k)
                     else loop1 (setFrontGiven k f) b1)"
    by (simp add: loop1_at [OF kf cur] first)
  also have "loop1 (setFrontGiven k f) b1 = loop1 f' b'" by (rule loop1Reaches_loop1 [OF reach])
  also have "loop1 f' b' = Inl (DuplicateDirective k)"
    by (simp add: loop1_at [OF kf again] g)
  finally show ?thesis by simp
qed

lemma loop3_second_occurrence:
  assumes k: "k \<in> set backOnceKinds" and cur: "CurrLine b = directiveLine k"
    and first: "backMatterDirective k (backLabel k) (firstBackmatter f) b = Inr b1"
    and reach: "loop3Reaches (setBackGiven k f) b1 f' b'"
    and again: "CurrLine b' = directiveLine k"
  shows "loop3 f b = Inl (DuplicateDirective k)"
proof -
  from k once_kinds_subset have kf: "k \<in> set backKinds" by blast
  from loop3Reaches_given [OF reach backGiven_after [OF k]] have g: "backGiven f' k" .
  have "loop3 f b = (if backGiven f k then Inl (DuplicateDirective k)
                     else loop3 (setBackGiven k f) b1)"
    by (simp add: loop3_at [OF kf cur] first)
  also have "loop3 (setBackGiven k f) b1 = loop3 f' b'" by (rule loop3Reaches_loop3 [OF reach])
  also have "loop3 f' b' = Inl (DuplicateDirective k)"
    by (simp add: loop3_at [OF kf again] g)
  finally show ?thesis by simp
qed

lemma parse_omitted_kind:
  assumes p: "parse ts ls = Inr b" and k: "k \<in> set directiveKinds"
    and no: "directiveLine k \<notin> set ls"
  shows "k \<notin> set (map EpubType (sections b))"
proof
  assume "k \<in> set (map EpubType (sections b))"
  then obtain s where s: "s \<in> set (sections b)" and e: "EpubType s = k" by auto
  from parse_sectionsInv [OF p] have inv: "sectionsInv b" and l: "lines b = ls" by simp_all
  from s have "s \<in> set (take 3 (sections b) @ drop 3 (sections b))" by simp
  then have "s \<in> set (take 3 (sections b)) \<or> s \<in> set (drop 3 (sections b))"
    unfolding set_append by blast
  then show False
  proof
    assume "s \<in> set (take 3 (sections b))"
    with inv have "s \<in> set [coverSection, titlePageSection, copyrightSection]"
      by (simp add: sectionsInv_def)
    then have "EpubType s \<in> {''cover'', ''titlepage'', ''copyright-page''}"
      by (auto simp: coverSection_def titlePageSection_def copyrightSection_def)
    with e have "k \<in> {''cover'', ''titlepage'', ''copyright-page''}" by simp
    moreover from k have "k \<notin> {''cover'', ''titlepage'', ''copyright-page''}"
      by (auto simp: directiveKinds_def frontKinds_def bodyKinds_def backKinds_def)
    ultimately show False by blast
  next
    assume "s \<in> set (drop 3 (sections b))"
    with inv have "directiveLine (EpubType s) \<in> set (lines b)"
      by (auto simp: sectionsInv_def list_all_iff)
    with e l no show False by simp
  qed
qed

lemma scenarioD_error:
  "map_sum id sections (parse sampleTime scenarioD) = Inl (DuplicateDirective ''bibliography'')"
  by code_simp

lemma bibliographyAfterChapter_error:
  "map_sum id sections (parse sampleTime bibliographyAfterChapter) =
     Inl (UnknownDirective ''<!--bibliography-->'')"
  by code_simp

lemma dupFrontBuffer_first:
  "frontMatterDirective ''bibliography'' ''Bibliography'' dupFrontBuffer =
     Inr (dupFrontBuffer\<lparr>lineIndex := 3, CurrLine := ''<!--bibliography-->'',
            currSectionNo := 1,
            sections := [\<lparr>ID = ''section001'', EpubType = ''bibliography'', Heading = ''Books''\<rparr>]\<rparr>)"
  by (simp add: dupFrontBuffer_def NewInputBuffer_def
        frontMatterDirective_def NextLine_def extractHeading_def HasPrefix_def Index_def
        slice_def NewSectionData_def AddSection_def GenFrontMatterSection_def
        collectSectionLines.simps sectionID_def decimal.simps digitChar_def numeral_2_eq_2)

lemma dupBackBuffer_first:
  "backMatterDirective ''afterword'' ''Afterword'' True dupBackBuffer =
     Inr (dupBackBuffer\<lparr>lineIndex := 3, CurrLine := ''<!--afterword-->'',
            currSectionNo := 1,
            sections := [\<lparr>ID = ''section001'', EpubType = ''afterword'', Heading = ''Afterword''\<rparr>],
            guides := [\<lparr>ID = ''section001'', EpubType = ''afterword'', Heading = ''Afterword''\<rparr>]\<rparr>)"
  by (simp add: dupBackBuffer_def NewInputBuffer_def
        backMatterDirective_def NextLine_def extractHeading_def HasPrefix_def Index_def
        slice_def NewSectionData_def AddSection_def AddGuide_def GenBackMatterSection_def
        collectSectionLines.simps sectionID_def decimal.simps digitChar_def numeral_2_eq_2)

lemma scenarioA_no_bibliography: "directiveLine ''bibliography'' \<notin> set scenarioA"
  by (simp add: directiveLine_def scenarioA_def sampleHead_def metaTag_def)

lemma bindE_assoc: "bindE (bindE m f) g = bindE m (\<lambda>x. bindE (f x) g)"
  by (cases m) simp_all

lemma parse_after_front_matter:
  "parse currTimeStamp ls =
     bindE (parseFrontMatter currTimeStamp ls) (\<lambda>b.
     bindE (loop2 True b) (\<lambda>(firstBodymatter, b).
       if firstBodymatter then Inl NoChapterSpecified
       else loop3 initBackFlags b))"
  unfolding parse_def parseFrontMatter_def bindE_assoc ..

lemma parseFrontMatter_sectionsInv:
  assumes "parseFrontMatter ts ls = Inr b"
  shows "sectionsInv b \<and> lines b = ls"
proof -
  from assms obtain a1 a2 a3 a4 a6 a7 a8 b3 where
        s1: "skipToLine ''<head>'' (NewInputBuffer ls) = Inr a1"
    and s2: "LoadAttributes a1 = Inr a2"
    and s3: "CheckCoverImage a2 = Inr a3"
    and s4: "CheckImageFiles a3 = Inr a4"
    and s6: "skipToLine ''<body>'' (SetAttribute ''modified'' ts
                  (if GetAttribute a4 ''created'' = []
                   then SetAttribute ''created'' ts a4 else a4)) = Inr a6"
    and s7: "NextLine a6 = Inr a7"
    and s8: "GenTitlePageSection (GenCoverSection a7) = Inr a8"
    and s9: "GenCopyrightSection (take 10 ts) a8 = Inr b3"
    and l1: "loop1 noFrontFlags b3 = Inr b"
    unfolding parseFrontMatter_def bindE_Inr_iff by auto
  from skipToLine_moves [OF s1] have a1: "lines a1 = ls" "sections a1 = []" "currSectionNo a1 = 0"
    by (auto simp: NewInputBuffer_def)
  from LoadAttributes_moves [OF s2] a1 have a2: "lines a2 = ls" "sections a2 = []" "currSectionNo a2 = 0"
    by auto
  from CheckCoverImage_frame [OF s3] a2 have a3: "lines a3 = ls" "sections a3 = []" "currSectionNo a3 = 0"
    by auto
  from CheckImageFiles_frame [OF s4] a3 have a4: "lines a4 = ls" "sections a4 = []" "currSectionNo a4 = 0"
    by auto
  from skipToLine_moves [OF s6] a4 have a6: "lines a6 = ls" "sections a6 = []" "currSectionNo a6 = 0"
    by (auto simp: SetAttribute_def)
  from NextLine_moves [OF s7] a6 have a7: "lines a7 = ls" "sections a7 = []" "currSectionNo a7 = 0"
    "cursorOK a7"
    by (auto simp: cursorOK_def)
  from a7 have c7: "cursorOK (GenCoverSection a7)" "lines (GenCoverSection a7) = ls"
    "sections (GenCoverSection a7) = [coverSection]" "currSectionNo (GenCoverSection a7) = 0"
    by (simp_all add: GenCoverSection_def cursorOK_def)
  from GenTitlePageSection_frame [OF s8 c7(1)] c7 have a8: "lines a8 = ls"
    "sections a8 = [coverSection, titlePageSection]" "currSectionNo a8 = 0"
    by auto
  from GenCopyrightSection_frame [OF s9] a8 have b3: "cursorOK b3" "lines b3 = ls"
    "sections b3 = [coverSection, titlePageSection, copyrightSection]" "currSectionNo b3 = 0"
    by auto
  then have b3': "sectionsInv b3 \<and> lines b3 = ls" by (simp add: sectionsInv_def)
  show ?thesis
    by (rule loop1_invariant [where P = "\<lambda>b. sectionsInv b \<and> lines b = ls", OF l1])
       (use b3' kinds_subset in \<open>auto intro: sectionsInv_step simp: appendsSection_lines\<close>)
qed

lemma loop2_sections_prefix:
  assumes "loop2 fb b = Inr (fb', b')"
  shows "\<exists>new. sections b' = sections b @ new"
proof (rule loop2_invariant [where P = "\<lambda>x. \<exists>new. sections x = sections b @ new", OF assms])
  show "\<exists>new. sections b = sections b @ new" by simp
next
  fix k x x1
  assume "appendsSection k x x1" and "\<exists>new. sections x = sections b @ new"
  then show "\<exists>new. sections x1 = sections b @ new"
    by (auto simp: appendsSection_def)
qed

lemma loop3_sections_prefix:
  assumes "loop3 f b = Inr b'"
  shows "\<exists>new. sections b' = sections b @ new"
proof (rule loop3_invariant [where P = "\<lambda>x. \<exists>new. sections x = sections b @ new", OF assms])
  show "\<exists>new. sections b = sections b @ new" by simp
next
  fix k x x1
  assume "appendsSection k x x1" and "\<exists>new. sections x = sections b @ new"
  then show "\<exists>new. sections x1 = sections b @ new"
    by (auto simp: appendsSection_def)
qed

lemma loop2_first_body_section:
  assumes "loop2 True b = Inr (False, b')"
  shows "\<exists>s \<in> set (sections b'). EpubType s = ''part'' \<or> EpubType s = ''chapter''"
proof -
  from loop2_Inr_cases [OF assms] obtain k b1 where k: "k \<in> set bodyKinds"
    and a: "appendsSection k b b1" and r: "loop2 False b1 = Inr (False, b')"
    by auto
  from a obtain i h g where "b1 = b\<lparr>lineIndex := i, CurrLine := lines b ! i,
               currSectionNo := currSectionNo b + 1,
               sections := sections b @
                 [\<lparr>ID = sectionID (currSectionNo b + 1), EpubType = k, Heading = h\<rparr>],
               guides := g\<rparr>"
    unfolding appendsSection_def by blast
  then have "\<lparr>ID = sectionID (currSectionNo b + 1), EpubType = k, Heading = h\<rparr> \<in> set (sections b1)"
    by simp
  then obtain s where s: "s \<in> set (sections b1)" "EpubType s = k"
    by (intro that [of "\<lparr>ID = sectionID (currSectionNo b + 1), EpubType = k, Heading = h\<rparr>"]) simp_all
  from loop2_sections_prefix [OF r] s(1) have "s \<in> set (sections b')" by auto
  moreover from k s(2) have "EpubType s = ''part'' \<or> EpubType s = ''chapter''"
    by (auto simp: bodyKinds_def)
  ultimately show ?thesis by blast
qed

lemma noBodyMatter_front:
  "map_sum id (map EpubType \<circ> sections) (parseFrontMatter sampleTime noBodyMatter) =
     Inr [''cover'', ''titlepage'', ''copyright-page'', ''preface'']"
  by code_simp

lemma noBodyMatter_lines:
  "directiveLine ''part'' \<notin> set noBodyMatter \<and> directiveLine ''chapter'' \<notin> set noBodyMatter"
  by (simp add: directiveLine_def noBodyMatter_def sampleHead_def metaTag_def)

lemma closeGroups_spec:
  "list_all isBodyKind body \<Longrightarrow>
     closeGroups cp run body =
       \<lparr>Part = cp, Chapters = run @ takeWhile (\<lambda>c. EpubType c = ''chapter'') body\<rparr> #
       specPartGroups (dropWhile (\<lambda>c. EpubType c = ''chapter'') body)"
proof (induction body arbitrary: cp run)
  case Nil
  show ?case by simp
next
  case (Cons s body)
  then have b: "list_all isBodyKind body" and s: "isBodyKind s" by simp_all
  show ?case
  proof (cases "EpubType s = ''part''")
    case True
    then have nc: "EpubType s \<noteq> ''chapter''" by simp
    from True nc Cons.IH [OF b, of s "[]"] show ?thesis by simp
  next
    case False
    with s have c: "EpubType s = ''chapter''" by (simp add: isBodyKind_def)
    from False c Cons.IH [OF b, of cp "run @ [s]"] show ?thesis by simp
  qed
qed

lemma slice_snoc:
  assumes "slice ss (int st) (int n) = Inr run" and "n < length ss"
  shows "slice ss (int st) (int (n + 1)) = Inr (run @ [ss ! n])"
proof -
  from assms(1) have le: "st \<le> n"
    by (cases "st \<le> n") (simp_all add: slice_def)
  from le have d: "nat (int n - int st) = n - st" by linarith
  from le have d': "nat (int (n + 1) - int st) = Suc (n - st)" by linarith
  from assms le d have run: "run = take (n - st) (drop st ss)"
    by (simp add: slice_def)
  from le assms(2) have "n - st < length (drop st ss)" by simp
  then have "take (Suc (n - st)) (drop st ss) = take (n - st) (drop st ss) @ [drop st ss ! (n - st)]"
    by (rule take_Suc_conv_app_nth)
  moreover from le assms(2) have "drop st ss ! (n - st) = ss ! n" by simp
  ultimately have t: "take (Suc (n - st)) (drop st ss) = run @ [ss ! n]" using run by simp
  from le assms(2) have "0 \<le> int st \<and> int st \<le> int (n + 1) \<and> int (n + 1) \<le> int (length ss)"
    by linarith
  then have "slice ss (int st) (int (n + 1)) =
      Inr (take (nat (int (n + 1) - int st)) (drop (nat (int st)) ss))"
    unfolding slice_def by (rule if_P)
  also have "\<dots> = Inr (run @ [ss ! n])" unfolding d' using t by simp
  finally show ?thesis .
qed

lemma partsLoop_groups:
  assumes "ss = pre @ body @ t # post" and "list_all isBodyKind body" and "\<not> isBodyKind t"
    and "slice ss (int startIndex) (int (length pre)) = Inr run"
  shows "partsLoop ss (length pre) False cp startIndex acc =
           Inr (length pre + length body, acc @ closeGroups cp run body)"
  using assms
proof (induction body arbitrary: pre cp startIndex run acc)
  case Nil
  then have t: "ss ! length pre = t" and l: "\<not> length ss \<le> length pre" by simp_all
  with Nil.prems(3) have "EpubType (ss ! length pre) \<noteq> ''part''"
    "EpubType (ss ! length pre) \<noteq> ''chapter''"
    by (simp_all add: isBodyKind_def)
  with l Nil.prems(4) show ?case by (subst partsLoop.simps) simp
next
  case (Cons s body)
  from Cons.prems(1) have s: "ss ! length pre = s" and l: "\<not> length ss \<le> length pre"
    and l': "length pre < length ss" by simp_all
  from Cons.prems(1) have ss': "ss = (pre @ [s]) @ body @ t # post" by simp
  from Cons.prems(2) have b: "list_all isBodyKind body" and sb: "isBodyKind s" by simp_all
  show ?case
  proof (cases "EpubType s = ''part''")
    case True
    from l' have e: "slice ss (int (length (pre @ [s]))) (int (length (pre @ [s]))) = Inr []"
      using slice_empty [of "length pre + 1" ss] by simp
    from Cons.IH [OF ss' b Cons.prems(3) e, of s "acc @ [\<lparr>Part = cp, Chapters = run\<rparr>]"]
    have "partsLoop ss (length pre + 1) False s (length pre + 1) (acc @ [\<lparr>Part = cp, Chapters = run\<rparr>]) =
        Inr (length pre + 1 + length body,
             (acc @ [\<lparr>Part = cp, Chapters = run\<rparr>]) @ closeGroups s [] body)"
      by simp
    with True s l Cons.prems(4) show ?thesis by (subst partsLoop.simps) simp
  next
    case False
    with sb have c: "EpubType s = ''chapter''" by (simp add: isBodyKind_def)
    from slice_snoc [OF Cons.prems(4) l'] s
    have e: "slice ss (int startIndex) (int (length (pre @ [s]))) = Inr (run @ [s])" by simp
    from Cons.IH [OF ss' b Cons.prems(3) e, of cp acc]
    have "partsLoop ss (length pre + 1) False cp startIndex acc =
        Inr (length pre + 1 + length body, acc @ closeGroups cp (run @ [s]) body)"
      by simp
    with False c s l show ?thesis by (subst partsLoop.simps) simp
  qed
qed

lemma partsLoop_first_part:
  assumes "ss = front @ p # rest" and "EpubType p = ''part''"
  shows "partsLoop ss (length front) True cp st acc =
           partsLoop ss (length (front @ [p])) False p (length (front @ [p])) []"
proof -
  from assms(1) have "ss ! length front = p" and "\<not> length ss \<le> length front" by simp_all
  with assms(2) show ?thesis by (subst partsLoop.simps) simp
qed

lemma body_run_split:
  assumes "\<exists>s \<in> set rest. \<not> isBodyKind s"
  obtains t post where "dropWhile isBodyKind rest = t # post" and "\<not> isBodyKind t"
proof -
  from assms have "dropWhile isBodyKind rest \<noteq> []" by (simp add: dropWhile_eq_Nil_conv)
  then obtain t post where d: "dropWhile isBodyKind rest = t # post"
    by (cases "dropWhile isBodyKind rest") simp_all
  from d have "\<not> isBodyKind (hd (dropWhile isBodyKind rest))"
    using hd_dropWhile [of isBodyKind rest] by simp
  with d have "\<not> isBodyKind t" by simp
  with d show ?thesis by (rule that)
qed

section \<open>The claims\<close>

subsection \<open>Claim C1\<close>

text \<open>
  C1 (as amended). When the first Section of kind part or chapter is a chapter, the
  partitioner takes the branch without parts: the front list is every Section before
  that chapter (for the directives copyright, chapter, chapter, end these are the cover,
  title-page and copyright Sections), there are no part groups, and the chapter list
  followed by the back list is the rest of the sequence, in order.
\<close>

theorem C1_chapters_only_partition:
  assumes ss: "sections b = front @ c # rest"
    and front: "\<forall>s \<in> set front. EpubType s \<noteq> ''part'' \<and> EpubType s \<noteq> ''chapter''"
    and c: "EpubType c = ''chapter''"
  shows "\<exists>nav. GenNAVFile b = Inr nav \<and> FrontSections nav = front \<and> \<not> HasParts nav \<and>
           PartSections nav = [] \<and> ChapterSections nav @ BackSections nav = c # rest"
  unfolding GenNAVFile_chapters_branch [OF ss front [unfolded not_body_conv] c]
  by simp

theorem C1_witness:
  "\<exists>b nav. parse sampleTime scenarioA = Inr b \<and> GenNAVFile b = Inr nav \<and>
       FrontSections nav = [coverSection, titlePageSection, copyrightSection] \<and>
       \<not> HasParts nav \<and> PartSections nav = [] \<and>
       ChapterSections nav @ BackSections nav =
         [\<lparr>ID = ''section001'', EpubType = ''chapter'', Heading = ''One''\<rparr>,
          \<lparr>ID = ''section002'', EpubType = ''chapter'', Heading = ''Two''\<rparr>]"
proof -
  from map_sum_sections_InrD [OF scenarioA_sections] obtain b where
    b: "parse sampleTime scenarioA = Inr b"
    and ss: "sections b = [coverSection, titlePageSection, copyrightSection] @
          \<lparr>ID = ''section001'', EpubType = ''chapter'', Heading = ''One''\<rparr> #
          [\<lparr>ID = ''section002'', EpubType = ''chapter'', Heading = ''Two''\<rparr>]"
    by auto
  have f: "\<forall>s \<in> set [coverSection, titlePageSection, copyrightSection].
             EpubType s \<noteq> ''part'' \<and> EpubType s \<noteq> ''chapter''"
    by (simp add: coverSection_def titlePageSection_def copyrightSection_def)
  from C1_chapters_only_partition [OF ss f] obtain nav where
    "GenNAVFile b = Inr nav"
    "FrontSections nav = [coverSection, titlePageSection, copyrightSection]"
    "\<not> HasParts nav" "PartSections nav = []"
    "ChapterSections nav @ BackSections nav =
         [\<lparr>ID = ''section001'', EpubType = ''chapter'', Heading = ''One''\<rparr>,
          \<lparr>ID = ''section002'', EpubType = ''chapter'', Heading = ''Two''\<rparr>]"
    by auto
  with b show ?thesis by (intro exI [of _ b] exI [of _ nav] conjI)
qed

text \<open>
  The claim as stated fails on scenario A itself: the front list holds the three fixed
  Sections, the flat chapter list is empty and both chapters are in the back list.
\<close>

theorem C1_counterexample:
  "\<exists>nav. runMain sampleTime scenarioA = Inr nav \<and>
       FrontSections nav = [coverSection, titlePageSection, copyrightSection] \<and>
       ChapterSections nav = [] \<and>
       BackSections nav =
         [\<lparr>ID = ''section001'', EpubType = ''chapter'', Heading = ''One''\<rparr>,
          \<lparr>ID = ''section002'', EpubType = ''chapter'', Heading = ''Two''\<rparr>] \<and>
       \<not> (FrontSections nav = [] \<and>
          ChapterSections nav =
            [\<lparr>ID = ''section001'', EpubType = ''chapter'', Heading = ''One''\<rparr>,
             \<lparr>ID = ''section002'', EpubType = ''chapter'', Heading = ''Two''\<rparr>] \<and>
          BackSections nav = [])"
proof -
  from map_sum_sections_InrD [OF scenarioA_sections] obtain b where
    b: "parse sampleTime scenarioA = Inr b"
    and ss: "sections b = [coverSection, titlePageSection, copyrightSection] @
          \<lparr>ID = ''section001'', EpubType = ''chapter'', Heading = ''One''\<rparr> #
          [\<lparr>ID = ''section002'', EpubType = ''chapter'', Heading = ''Two''\<rparr>]"
    by auto
  define nav where "nav =
      \<lparr>Title = GetAttribute b ''title'',
       FrontSections = [coverSection, titlePageSection, copyrightSection],
       HasParts = False, PartSections = [], ChapterSections = [],
       BackSections = [\<lparr>ID = ''section001'', EpubType = ''chapter'', Heading = ''One''\<rparr>,
                       \<lparr>ID = ''section002'', EpubType = ''chapter'', Heading = ''Two''\<rparr>],
       Guides = guides b\<rparr>"
  have g: "GenNAVFile b = Inr nav"
    unfolding nav_def by (rule GenNAVFile_chapters_branch [OF ss fixed_not_body]) simp
  with b have r: "runMain sampleTime scenarioA = Inr nav" by (simp add: runMain_def)
  have 1: "FrontSections nav = [coverSection, titlePageSection, copyrightSection]"
    and 2: "ChapterSections nav = []"
    and 3: "BackSections nav =
         [\<lparr>ID = ''section001'', EpubType = ''chapter'', Heading = ''One''\<rparr>,
          \<lparr>ID = ''section002'', EpubType = ''chapter'', Heading = ''Two''\<rparr>]"
    by (simp_all add: nav_def)
  from 1 have 4: "\<not> (FrontSections nav = [] \<and>
          ChapterSections nav =
            [\<lparr>ID = ''section001'', EpubType = ''chapter'', Heading = ''One''\<rparr>,
             \<lparr>ID = ''section002'', EpubType = ''chapter'', Heading = ''Two''\<rparr>] \<and>
          BackSections nav = [])"
    by simp
  show ?thesis by (intro exI [of _ nav] conjI r 1 2 3 4)
qed

subsection \<open>Claim C2\<close>

text \<open>
  C2. Scenario B (copyright, part, chapter, chapter, part, chapter, end) is accepted by
  the parser, and then the partitioner fails: the parts scan runs past the last Section
  and panics with an index out of range instead of closing the second part-group.
\<close>

theorem C2_scenarioB_index_out_of_range:
  "runMain sampleTime scenarioB = Inl IndexOutOfRange"
  by code_simp

subsection \<open>Claim C3\<close>

text \<open>
  C3 (as amended). During header scanning a line that does not start with \<open><meta\<close>, and
  a line that starts with \<open><meta\<close> but has no \<open>name=\<close> in it, is skipped silently with
  the Attribute Dictionary unchanged.  A line that starts with \<open><meta\<close> and has \<open>name=\<close>
  followed by at least one byte fails with the malformed-metadata error when the name
  has no closing quote, when the line has no \<open>content=\<close>, or when \<open>content=\<close> is followed
  by at least one byte and the content has no closing quote.
\<close>

theorem C3_metadata_lines:
  assumes n: "NextLine b = Inr b1" and nh: "CurrLine b1 \<noteq> ''</head>''"
  shows "(\<not> HasPrefix (CurrLine b1) ''<meta'' \<or> Index (CurrLine b1) ''name='' = -1
            \<longrightarrow> LoadAttributes b = LoadAttributes b1 \<and> attributes b1 = attributes b) \<and>
         (HasPrefix (CurrLine b1) ''<meta'' \<and> Index (CurrLine b1) ''name='' \<noteq> -1 \<and>
          sliceFrom (CurrLine b1) (Index (CurrLine b1) ''name='' + 6) = Inr name \<and>
          (Index name [CHR 0x22] = -1 \<or>
           Index (CurrLine b1) ''content='' = -1 \<or>
           sliceFrom (CurrLine b1) (Index (CurrLine b1) ''content='' + 9) = Inr content \<and>
             Index content [CHR 0x22] = -1)
            \<longrightarrow> LoadAttributes b = Inl (MalformedMetadata (CurrLine b1)))"
proof (intro conjI impI)
  assume s: "\<not> HasPrefix (CurrLine b1) ''<meta'' \<or> Index (CurrLine b1) ''name='' = -1"
  then have "LoadAttributesLine (CurrLine b1) (attributes b1) = Inr (attributes b1)"
    by (auto simp: LoadAttributesLine_def)
  then show "LoadAttributes b = LoadAttributes b1"
    unfolding LoadAttributes_step [OF n nh] by simp
  from NextLine_moves [OF n] show "attributes b1 = attributes b" by auto
next
  assume m: "HasPrefix (CurrLine b1) ''<meta'' \<and> Index (CurrLine b1) ''name='' \<noteq> -1 \<and>
          sliceFrom (CurrLine b1) (Index (CurrLine b1) ''name='' + 6) = Inr name \<and>
          (Index name [CHR 0x22] = -1 \<or>
           Index (CurrLine b1) ''content='' = -1 \<or>
           sliceFrom (CurrLine b1) (Index (CurrLine b1) ''content='' + 9) = Inr content \<and>
             Index content [CHR 0x22] = -1)"
  have e: "Index (CurrLine b1) ''name='' + 5 + 1 = Index (CurrLine b1) ''name='' + 6"
    "Index (CurrLine b1) ''content='' + 8 + 1 = Index (CurrLine b1) ''content='' + 9"
    by simp_all
  from m have "LoadAttributesLine (CurrLine b1) (attributes b1) = Inl (MalformedMetadata (CurrLine b1))"
    unfolding LoadAttributesLine_def e by auto
  then show "LoadAttributes b = Inl (MalformedMetadata (CurrLine b1))"
    unfolding LoadAttributes_step [OF n nh] by simp
qed

theorem C3_witness:
  "LoadAttributes (headerOf metaNoContent) = Inl (MalformedMetadata metaNoContent) \<and>
   (\<exists>b'. LoadAttributes (headerOf ''<meta charset=utf-8>'') = Inr b' \<and>
         attributes b' = attributes (headerOf ''<meta charset=utf-8>'')) \<and>
   (\<exists>b'. LoadAttributes (headerOf ''<title>T</title>'') = Inr b' \<and>
         attributes b' = attributes (headerOf ''<title>T</title>''))"
proof (intro conjI)
  let ?b1 = "(headerOf metaNoContent)\<lparr>lineIndex := 1, CurrLine := metaNoContent\<rparr>"
  have nh: "CurrLine ?b1 \<noteq> ''</head>''" by (simp add: metaNoContent_def)
  have "HasPrefix (CurrLine ?b1) ''<meta'' \<and> Index (CurrLine ?b1) ''name='' \<noteq> -1 \<and>
          sliceFrom (CurrLine ?b1) (Index (CurrLine ?b1) ''name='' + 6) =
            Inr (''title'' @ [CHR 0x22] @ ''>'') \<and>
          Index (CurrLine ?b1) ''content='' = -1"
    by (simp add: metaNoContent_def HasPrefix_def Index_def sliceFrom_def slice_def)
  with C3_metadata_lines [OF headerOf_NextLine nh, of "''title'' @ [CHR 0x22] @ ''>''" "[]"]
  show "LoadAttributes (headerOf metaNoContent) = Inl (MalformedMetadata metaNoContent)"
    by simp
next
  let ?l = "''<meta charset=utf-8>''"
  let ?b1 = "(headerOf ?l)\<lparr>lineIndex := 1, CurrLine := ?l\<rparr>"
  have nh: "CurrLine ?b1 \<noteq> ''</head>''" by simp
  have "Index (CurrLine ?b1) ''name='' = -1" by (simp add: Index_def)
  with C3_metadata_lines [OF headerOf_NextLine nh, of "[]" "[]"]
  have "LoadAttributes (headerOf ?l) = LoadAttributes ?b1" by simp
  then show "\<exists>b'. LoadAttributes (headerOf ?l) = Inr b' \<and> attributes b' = attributes (headerOf ?l)"
    unfolding headerOf_close by simp
next
  let ?l = "''<title>T</title>''"
  let ?b1 = "(headerOf ?l)\<lparr>lineIndex := 1, CurrLine := ?l\<rparr>"
  have nh: "CurrLine ?b1 \<noteq> ''</head>''" by simp
  have "\<not> HasPrefix (CurrLine ?b1) ''<meta''" by (simp add: HasPrefix_def)
  with C3_metadata_lines [OF headerOf_NextLine nh, of "[]" "[]"]
  have "LoadAttributes (headerOf ?l) = LoadAttributes ?b1" by simp
  then show "\<exists>b'. LoadAttributes (headerOf ?l) = Inr b' \<and> attributes b' = attributes (headerOf ?l)"
    unfolding headerOf_close by simp
qed

text \<open>
  The claim as stated fails on \<open><meta charset=utf-8>\<close>: the line starts with \<open><meta\<close>
  and has no name component, and the header scan goes on without an error.
\<close>

theorem C3_counterexample:
  "HasPrefix ''<meta charset=utf-8>'' ''<meta'' \<and>
   Index ''<meta charset=utf-8>'' ''name='' = -1 \<and>
   LoadAttributes (headerOf ''<meta charset=utf-8>'') =
     Inr ((headerOf ''<meta charset=utf-8>'')\<lparr>lineIndex := 2, CurrLine := ''</head>''\<rparr>)"
  by (simp add: HasPrefix_def Index_def headerOf_def NewInputBuffer_def NextLine_def
        LoadAttributes.simps LoadAttributesLine_def)

subsection \<open>Claim C4\<close>

text \<open>
  C4 (as amended). When the line after a preface directive is the sentinel heading line,
  \<open>extractHeading\<close> returns the empty string, and the front-matter loop replaces it by
  the default label before it builds the Section: the Section stored in the section
  sequence has the heading \<open>Preface\<close>.
\<close>

theorem C4_preface_default_label_stored:
  assumes cur: "CurrLine b = ''<!--preface-->''" and ng: "\<not> prefaceGiven f"
    and n: "NextLine b = Inr b1" and h: "CurrLine b1 = ''<h1>&#160;</h1>''"
    and run: "loop1 f b = Inr b'"
  shows "extractHeading (CurrLine b1) = Inr [] \<and>
         length (sections b) < length (sections b') \<and>
         take (length (sections b)) (sections b') = sections b \<and>
         sections b' ! length (sections b) =
           \<lparr>ID = sectionID (currSectionNo b + 1), EpubType = ''preface'', Heading = ''Preface''\<rparr>"
proof -
  from h have eh: "extractHeading (CurrLine b1) = Inr []"
    by (simp add: extractHeading_sentinel)
  from run cur ng obtain b2 where
    fm: "frontMatterDirective ''preface'' ''Preface'' b = Inr b2"
    and r2: "loop1 (f\<lparr>prefaceGiven := True\<rparr>) b2 = Inr b'"
    by (subst (asm) loop1.simps) (simp split: sum.splits)
  from fm n eh obtain ls where
    c: "collectSectionLines []
          (b1\<lparr>currSectionNo := currSectionNo b1 + 1,
               sections := sections b1 @
                 [\<lparr>ID = sectionID (currSectionNo b1 + 1), EpubType = ''preface'',
                   Heading = ''Preface''\<rparr>]\<rparr>) = Inr (ls, b2)"
    by (auto simp: frontMatterDirective_def GenFrontMatterSection_def NewSectionData_def
          AddSection_def bindE_Inr_iff)
  from collectSectionLines_moves [OF c] NextLine_moves [OF n]
  have s2: "sections b2 = sections b @
      [\<lparr>ID = sectionID (currSectionNo b + 1), EpubType = ''preface'', Heading = ''Preface''\<rparr>]"
    by auto
  from loop1_sections_prefix [OF r2] obtain new where
    "sections b' = sections b2 @ new" ..
  with s2 have s': "sections b' = sections b @
      \<lparr>ID = sectionID (currSectionNo b + 1), EpubType = ''preface'', Heading = ''Preface''\<rparr> # new"
    by simp
  have 1: "length (sections b) < length (sections b')" unfolding s' by simp
  have 2: "take (length (sections b)) (sections b') = sections b" unfolding s' by simp
  have 3: "sections b' ! length (sections b) =
      \<lparr>ID = sectionID (currSectionNo b + 1), EpubType = ''preface'', Heading = ''Preface''\<rparr>"
    unfolding s' by simp
  from eh 1 2 3 show ?thesis by (intro conjI)
qed

theorem C4_witness:
  "\<exists>b'. loop1 noFrontFlags prefaceBuffer = Inr b' \<and>
        sections b' ! 0 =
          \<lparr>ID = sectionID 1, EpubType = ''preface'', Heading = ''Preface''\<rparr> \<and>
        sections b' =
          [\<lparr>ID = ''section001'', EpubType = ''preface'', Heading = ''Preface''\<rparr>]"
proof -
  let ?b1 = "prefaceBuffer\<lparr>lineIndex := 1, CurrLine := ''<h1>&#160;</h1>''\<rparr>"
  let ?b' = "prefaceBuffer\<lparr>lineIndex := 3, CurrLine := ''<!--chapter-->'', currSectionNo := 1,
            sections := [\<lparr>ID = ''section001'', EpubType = ''preface'', Heading = ''Preface''\<rparr>]\<rparr>"
  have cur: "CurrLine prefaceBuffer = ''<!--preface-->''"
    by (simp add: prefaceBuffer_def)
  have ng: "\<not> prefaceGiven noFrontFlags" by (simp add: noFrontFlags_def)
  have n: "NextLine prefaceBuffer = Inr ?b1"
    by (simp add: prefaceBuffer_def NextLine_def NewInputBuffer_def)
  have h: "CurrLine ?b1 = ''<h1>&#160;</h1>''" by simp
  note t = C4_preface_default_label_stored [OF cur ng n h prefaceBuffer_run]
  from t [THEN conjunct2, THEN conjunct2, THEN conjunct2]
  have "sections ?b' ! length (sections prefaceBuffer) =
      \<lparr>ID = sectionID (currSectionNo prefaceBuffer + 1), EpubType = ''preface'',
        Heading = ''Preface''\<rparr>" .
  then have 1: "sections ?b' ! 0 =
      \<lparr>ID = sectionID 1, EpubType = ''preface'', Heading = ''Preface''\<rparr>"
    by (simp add: prefaceBuffer_def NewInputBuffer_def)
  have 2: "sections ?b' =
      [\<lparr>ID = ''section001'', EpubType = ''preface'', Heading = ''Preface''\<rparr>]"
    by simp
  show ?thesis by (intro exI [of _ ?b'] conjI prefaceBuffer_run 1 2)
qed

text \<open>
  The claim as stated fails on scenario C: the stored Section of the preface has the
  heading \<open>Preface\<close>, not the empty string.
\<close>

theorem C4_counterexample:
  "\<exists>b. parse sampleTime scenarioC = Inr b \<and>
       sections b ! 3 = \<lparr>ID = ''section001'', EpubType = ''preface'', Heading = ''Preface''\<rparr> \<and>
       Heading (sections b ! 3) \<noteq> []"
proof -
  from map_sum_sections_InrD [OF scenarioC_sections] obtain b where
    b: "parse sampleTime scenarioC = Inr b"
    and ss: "sections b = [coverSection, titlePageSection, copyrightSection,
          \<lparr>ID = ''section001'', EpubType = ''preface'', Heading = ''Preface''\<rparr>,
          \<lparr>ID = ''section002'', EpubType = ''chapter'', Heading = ''One''\<rparr>]"
    by auto
  have 1: "sections b ! 3 =
      \<lparr>ID = ''section001'', EpubType = ''preface'', Heading = ''Preface''\<rparr>"
    unfolding ss by simp
  then have 2: "Heading (sections b ! 3) \<noteq> []" by simp
  show ?thesis by (intro exI [of _ b] conjI b 1 2)
qed

subsection \<open>Claim C5\<close>

text \<open>
  C5 (as amended). The first three Sections carry the fixed identifiers \<open>cover\<close>,
  \<open>titlepage\<close> and \<open>copyright\<close>.  Every later Section is built by \<open>NewSectionData\<close>:
  the n-th of them carries the identifier \<open>section\<close> followed by the running number n,
  zero-padded to three digits, so the numbers start at 1 and have no gaps in document
  order; all identifiers of the sequence are pairwise distinct.
\<close>

theorem C5_section_identifiers:
  assumes "parse currTimeStamp ls = Inr b"
  shows "map ID (sections b) =
           [''cover'', ''titlepage'', ''copyright''] @ map sectionID [1..<currSectionNo b + 1] \<and>
         length (sections b) = currSectionNo b + 3 \<and>
         (\<forall>n \<in> {1..currSectionNo b}. ID (sections b ! (n + 2)) = sectionID n) \<and>
         distinct (map ID (sections b))"
proof -
  from parse_sectionsInv [OF assms] have inv: "sectionsInv b" by simp
  then have t: "take 3 (sections b) = [coverSection, titlePageSection, copyrightSection]"
    and d: "map ID (drop 3 (sections b)) = map sectionID [1..<currSectionNo b + 1]"
    and l: "length (sections b) = currSectionNo b + 3"
    by (simp_all add: sectionsInv_def)
  have "map ID (sections b) = map ID (take 3 (sections b)) @ map ID (drop 3 (sections b))"
    by (simp flip: map_append)
  with t d have ids: "map ID (sections b) =
      [''cover'', ''titlepage'', ''copyright''] @ map sectionID [1..<currSectionNo b + 1]"
    by (simp add: coverSection_def titlePageSection_def copyrightSection_def)
  have nth: "ID (sections b ! (n + 2)) = sectionID n" if n: "n \<in> {1..currSectionNo b}" for n
  proof -
    from n l have "n + 2 < length (sections b)" by simp
    then have "ID (sections b ! (n + 2)) = map ID (sections b) ! (n + 2)" by simp
    also from n have "\<dots> = map sectionID [1..<currSectionNo b + 1] ! (n - 1)"
      unfolding ids by (simp add: nth_append del: upt_Suc)
    also from n have "\<dots> = sectionID n" by (intro nth_ids) simp_all
    finally show ?thesis .
  qed
  then have all: "\<forall>n \<in> {1..currSectionNo b}. ID (sections b ! (n + 2)) = sectionID n" ..
  have dist: "distinct (map ID (sections b))"
    unfolding ids by (rule dist3)
  from ids l all dist show ?thesis by (intro conjI)
qed

theorem C5_witness:
  "\<exists>b. parse sampleTime scenarioA = Inr b \<and> currSectionNo b = 2 \<and>
       map ID (sections b) =
         [''cover'', ''titlepage'', ''copyright''] @ map sectionID [1..<currSectionNo b + 1] \<and>
       map ID (sections b) =
         [''cover'', ''titlepage'', ''copyright'', ''section001'', ''section002''] \<and>
       distinct (map ID (sections b))"
proof -
  from map_sum_sections_InrD [OF scenarioA_sections] obtain b where
    b: "parse sampleTime scenarioA = Inr b"
    and ss: "sections b = [coverSection, titlePageSection, copyrightSection,
          \<lparr>ID = ''section001'', EpubType = ''chapter'', Heading = ''One''\<rparr>,
          \<lparr>ID = ''section002'', EpubType = ''chapter'', Heading = ''Two''\<rparr>]"
    by blast
  note c = C5_section_identifiers [OF b]
  from ss have m: "map ID (sections b) =
      [''cover'', ''titlepage'', ''copyright'', ''section001'', ''section002'']"
    by (simp add: coverSection_def titlePageSection_def copyrightSection_def)
  from c [THEN conjunct2, THEN conjunct1] ss have n: "currSectionNo b = 2" by simp
  show ?thesis
    by (rule exI [of _ b])
       (intro conjI b n m c [THEN conjunct1] c [THEN conjunct2, THEN conjunct2, THEN conjunct2])
qed

text \<open>
  The claim as stated fails on the first Section of any accepted document: its
  identifier is \<open>cover\<close>, not the running number 1, which the fourth Section carries.
\<close>

theorem C5_counterexample:
  "\<exists>b. parse sampleTime scenarioA = Inr b \<and>
       map ID (sections b) =
         [''cover'', ''titlepage'', ''copyright'', ''section001'', ''section002''] \<and>
       \<not> (\<forall>n < length (sections b). ID (sections b ! n) = sectionID (n + 1))"
proof -
  from map_sum_sections_InrD [OF scenarioA_sections] obtain b where
    b: "parse sampleTime scenarioA = Inr b"
    and ss: "sections b = [coverSection, titlePageSection, copyrightSection,
          \<lparr>ID = ''section001'', EpubType = ''chapter'', Heading = ''One''\<rparr>,
          \<lparr>ID = ''section002'', EpubType = ''chapter'', Heading = ''Two''\<rparr>]"
    by blast
  from ss have m: "map ID (sections b) =
      [''cover'', ''titlepage'', ''copyright'', ''section001'', ''section002'']"
    by (simp add: coverSection_def titlePageSection_def copyrightSection_def)
  have "ID (sections b ! 0) \<noteq> sectionID (0 + 1)"
    unfolding ss by (simp add: coverSection_def sectionID_def)
  moreover from ss have "0 < length (sections b)" by simp
  ultimately have neg: "\<not> (\<forall>n < length (sections b). ID (sections b ! n) = sectionID (n + 1))"
    by blast
  show ?thesis
    by (rule exI [of _ b]) (intro conjI b m neg)
qed

subsection \<open>Claim C6\<close>

text \<open>
  C6. For every document accepted by the parser, the Section sequence is not empty and
  begins with the cover Section, then the title-page Section, then the copyright Section;
  no later Section has the kind or the identifier of one of these three, so each of them
  occurs exactly once.
\<close>

theorem C6_cover_titlepage_copyright_first:
  assumes "parse currTimeStamp ls = Inr b"
  shows "sections b \<noteq> [] \<and>
         take 3 (sections b) = [coverSection, titlePageSection, copyrightSection] \<and>
         (\<forall>s \<in> set (drop 3 (sections b)).
            EpubType s \<notin> {''cover'', ''titlepage'', ''copyright-page''} \<and>
            ID s \<notin> {''cover'', ''titlepage'', ''copyright''})"
proof -
  from parse_sectionsInv [OF assms] have inv: "sectionsInv b" by simp
  then have t: "take 3 (sections b) = [coverSection, titlePageSection, copyrightSection]"
    by (simp add: sectionsInv_def)
  then have ne: "sections b \<noteq> []" by auto
  have "EpubType s \<notin> {''cover'', ''titlepage'', ''copyright-page''} \<and>
        ID s \<notin> {''cover'', ''titlepage'', ''copyright''}"
    if s: "s \<in> set (drop 3 (sections b))" for s
  proof -
    from inv s have "EpubType s \<in> set directiveKinds"
      by (auto simp: sectionsInv_def list_all_iff)
    then have k: "EpubType s \<notin> {''cover'', ''titlepage'', ''copyright-page''}"
      by (auto simp: directiveKinds_def frontKinds_def bodyKinds_def backKinds_def)
    from s have "ID s \<in> set (map ID (drop 3 (sections b)))" by simp
    with inv have "ID s \<in> set (map sectionID [1..<currSectionNo b + 1])"
      by (simp add: sectionsInv_def)
    then have "ID s \<notin> {''cover'', ''titlepage'', ''copyright''}"
      by (auto simp: sectionID_def)
    with k show ?thesis by simp
  qed
  with t ne show ?thesis by blast
qed

theorem C6_witness:
  "\<exists>b. parse sampleTime scenarioA = Inr b \<and>
       map EpubType (sections b) =
         [''cover'', ''titlepage'', ''copyright-page'', ''chapter'', ''chapter''] \<and>
       sections b \<noteq> [] \<and>
       take 3 (sections b) = [coverSection, titlePageSection, copyrightSection] \<and>
       (\<forall>s \<in> set (drop 3 (sections b)).
          EpubType s \<notin> {''cover'', ''titlepage'', ''copyright-page''} \<and>
          ID s \<notin> {''cover'', ''titlepage'', ''copyright''})"
proof -
  from map_sum_sections_InrD [OF scenarioA_sections] obtain b where
    b: "parse sampleTime scenarioA = Inr b"
    and ss: "sections b = [coverSection, titlePageSection, copyrightSection,
          \<lparr>ID = ''section001'', EpubType = ''chapter'', Heading = ''One''\<rparr>,
          \<lparr>ID = ''section002'', EpubType = ''chapter'', Heading = ''Two''\<rparr>]"
    by blast
  from ss have m: "map EpubType (sections b) =
      [''cover'', ''titlepage'', ''copyright-page'', ''chapter'', ''chapter'']"
    by (simp add: coverSection_def titlePageSection_def copyrightSection_def)
  note c = C6_cover_titlepage_copyright_first [OF b]
  show ?thesis
    by (rule exI [of _ b]) (intro conjI b m c [THEN conjunct1] c [THEN conjunct2, THEN conjunct1]
          c [THEN conjunct2, THEN conjunct2])
qed

subsection \<open>Claim C7\<close>

text \<open>
  C7 (as amended). For every at-most-once directive kind, when the loop of its group
  (the front-matter loop for bibliography, acknowledgments, dedication, epigraph,
  foreword, introduction, preface and prologue; the back-matter loop for afterword and
  epilogue) has built the Section of a first occurrence and, in a later iteration,
  has a second occurrence as its current line, the run fails with the
  duplicate-directive error of that kind at that iteration, whatever follows the
  second occurrence.  A document that the parser accepts and that has no line equal to
  the directive has no Section of that kind.
\<close>

theorem C7_duplicate_directive:
  "(k \<in> set frontOnceKinds \<and> CurrLine b = directiveLine k \<and>
    frontMatterDirective k (frontLabel k) b = Inr b1 \<and>
    loop1Reaches (setFrontGiven k f) b1 f' b' \<and> CurrLine b' = directiveLine k
      \<longrightarrow> loop1 f b = Inl (DuplicateDirective k) \<and> loop1 f' b' = Inl (DuplicateDirective k)) \<and>
   (k \<in> set backOnceKinds \<and> CurrLine c = directiveLine k \<and>
    backMatterDirective k (backLabel k) (firstBackmatter g) c = Inr c1 \<and>
    loop3Reaches (setBackGiven k g) c1 g' c' \<and> CurrLine c' = directiveLine k
      \<longrightarrow> loop3 g c = Inl (DuplicateDirective k) \<and> loop3 g' c' = Inl (DuplicateDirective k)) \<and>
   (k \<in> set (frontOnceKinds @ backOnceKinds) \<and> parse currTimeStamp ls = Inr d \<and>
    directiveLine k \<notin> set ls
      \<longrightarrow> k \<notin> set (map EpubType (sections d)))"
proof (intro conjI impI)
  assume a: "k \<in> set frontOnceKinds \<and> CurrLine b = directiveLine k \<and>
    frontMatterDirective k (frontLabel k) b = Inr b1 \<and>
    loop1Reaches (setFrontGiven k f) b1 f' b' \<and> CurrLine b' = directiveLine k"
  then show "loop1 f b = Inl (DuplicateDirective k)"
    by (intro loop1_second_occurrence [where k = k and b = b and ?b1.0 = b1 and f = f and f' = f' and b' = b']) simp_all
  from a once_kinds_subset have kf: "k \<in> set frontKinds" by blast
  from a have "frontGiven f' k"
    by (intro loop1Reaches_given [of "setFrontGiven k f" b1 f' b' k] frontGiven_after) simp_all
  with a show "loop1 f' b' = Inl (DuplicateDirective k)"
    by (simp add: loop1_at [OF kf])
next
  assume a: "k \<in> set backOnceKinds \<and> CurrLine c = directiveLine k \<and>
    backMatterDirective k (backLabel k) (firstBackmatter g) c = Inr c1 \<and>
    loop3Reaches (setBackGiven k g) c1 g' c' \<and> CurrLine c' = directiveLine k"
  then show "loop3 g c = Inl (DuplicateDirective k)"
    by (intro loop3_second_occurrence [where k = k and b = c and ?b1.0 = c1 and f = g and f' = g' and b' = c']) simp_all
  from a once_kinds_subset have kf: "k \<in> set backKinds" by blast
  from a have "backGiven g' k"
    by (intro loop3Reaches_given [of "setBackGiven k g" c1 g' c' k] backGiven_after) simp_all
  with a show "loop3 g' c' = Inl (DuplicateDirective k)"
    by (simp add: loop3_at [OF kf])
next
  assume a: "k \<in> set (frontOnceKinds @ backOnceKinds) \<and> parse currTimeStamp ls = Inr d \<and>
    directiveLine k \<notin> set ls"
  with once_kinds_subset have "k \<in> set directiveKinds"
    by (auto simp: directiveKinds_def)
  with a show "k \<notin> set (map EpubType (sections d))"
    by (intro parse_omitted_kind [of currTimeStamp ls d k]) simp_all
qed

theorem C7_witness:
  "loop1 noFrontFlags dupFrontBuffer = Inl (DuplicateDirective ''bibliography'') \<and>
   loop3 initBackFlags dupBackBuffer = Inl (DuplicateDirective ''afterword'') \<and>
   (\<exists>d. parse sampleTime scenarioA = Inr d \<and>
        ''bibliography'' \<notin> set (map EpubType (sections d))) \<and>
   parse sampleTime scenarioD = Inl (DuplicateDirective ''bibliography'')"
proof (intro conjI)
  let ?b1 = "dupFrontBuffer\<lparr>lineIndex := 3, CurrLine := ''<!--bibliography-->'',
            currSectionNo := 1,
            sections := [\<lparr>ID = ''section001'', EpubType = ''bibliography'', Heading = ''Books''\<rparr>]\<rparr>"
  let ?f1 = "setFrontGiven ''bibliography'' noFrontFlags"
  have "''bibliography'' \<in> set frontOnceKinds \<and>
        CurrLine dupFrontBuffer = directiveLine ''bibliography'' \<and>
        frontMatterDirective ''bibliography'' (frontLabel ''bibliography'') dupFrontBuffer = Inr ?b1 \<and>
        loop1Reaches ?f1 ?b1 ?f1 ?b1 \<and> CurrLine ?b1 = directiveLine ''bibliography''"
    using dupFrontBuffer_first
    by (simp add: frontOnceKinds_def directiveLine_def frontLabel_def loop1Reaches.here
          dupFrontBuffer_def)
  with C7_duplicate_directive [of "''bibliography''" dupFrontBuffer ?b1 noFrontFlags ?f1 ?b1]
  show "loop1 noFrontFlags dupFrontBuffer = Inl (DuplicateDirective ''bibliography'')"
    by blast
next
  let ?c1 = "dupBackBuffer\<lparr>lineIndex := 3, CurrLine := ''<!--afterword-->'',
            currSectionNo := 1,
            sections := [\<lparr>ID = ''section001'', EpubType = ''afterword'', Heading = ''Afterword''\<rparr>],
            guides := [\<lparr>ID = ''section001'', EpubType = ''afterword'', Heading = ''Afterword''\<rparr>]\<rparr>"
  let ?g1 = "setBackGiven ''afterword'' initBackFlags"
  have "''afterword'' \<in> set backOnceKinds \<and>
        CurrLine dupBackBuffer = directiveLine ''afterword'' \<and>
        backMatterDirective ''afterword'' (backLabel ''afterword'')
          (firstBackmatter initBackFlags) dupBackBuffer = Inr ?c1 \<and>
        loop3Reaches ?g1 ?c1 ?g1 ?c1 \<and> CurrLine ?c1 = directiveLine ''afterword''"
    using dupBackBuffer_first
    by (simp add: backOnceKinds_def directiveLine_def backLabel_def loop3Reaches.here
          dupBackBuffer_def initBackFlags_def)
  with C7_duplicate_directive [where k = "''afterword''" and c = dupBackBuffer and ?c1.0 = ?c1
      and g = initBackFlags and g' = ?g1 and c' = ?c1]
  show "loop3 initBackFlags dupBackBuffer = Inl (DuplicateDirective ''afterword'')"
    by blast
next
  from map_sum_sections_InrD [OF scenarioA_sections] obtain d where
    d: "parse sampleTime scenarioA = Inr d" by blast
  have "''bibliography'' \<in> set (frontOnceKinds @ backOnceKinds)"
    by (simp add: frontOnceKinds_def)
  with C7_duplicate_directive [where k = "''bibliography''" and currTimeStamp = sampleTime
      and ls = scenarioA and d = d] d scenarioA_no_bibliography
  have "''bibliography'' \<notin> set (map EpubType (sections d))" by blast
  with d show "\<exists>d. parse sampleTime scenarioA = Inr d \<and>
        ''bibliography'' \<notin> set (map EpubType (sections d))"
    by (intro exI [of _ d] conjI)
next
  show "parse sampleTime scenarioD = Inl (DuplicateDirective ''bibliography'')"
    by (rule map_sum_InlD [OF scenarioD_error])
qed

text \<open>
  The claim as stated fails when the second occurrence comes after the body matter has
  begun: the body-matter loop leaves on it and the back-matter loop reports an unknown
  directive, not a duplicate one.
\<close>

theorem C7_counterexample:
  "parse sampleTime bibliographyAfterChapter = Inl (UnknownDirective ''<!--bibliography-->'') \<and>
   parse sampleTime bibliographyAfterChapter \<noteq> Inl (DuplicateDirective ''bibliography'')"
  using map_sum_InlD [OF bibliographyAfterChapter_error] by simp

subsection \<open>Claim C8\<close>

text \<open>
  C8. In the back-matter loop every current line that is not one of the afterword,
  epilogue, appendix or end directives is a fatal unknown-directive error, whatever the
  flags; the front-matter and body-matter loops leave on such a line without an error
  and without moving the cursor.
\<close>

theorem C8_back_matter_unknown_directive:
  "(CurrLine b \<notin> {''<!--afterword-->'', ''<!--epilogue-->'', ''<!--appendix-->'', ''<!--end-->''}
      \<longrightarrow> loop3 f3 b = Inl (UnknownDirective (CurrLine b))) \<and>
   (CurrLine b \<notin> {''<!--bibliography-->'', ''<!--acknowledgments-->'', ''<!--dedication-->'',
        ''<!--epigraph-->'', ''<!--foreword-->'', ''<!--introduction-->'', ''<!--preface-->'',
        ''<!--prologue-->'', ''<!--preamble-->''}
      \<longrightarrow> loop1 f1 b = Inr b) \<and>
   (CurrLine b \<notin> {''<!--part-->'', ''<!--chapter-->''}
      \<longrightarrow> loop2 firstBodymatter b = Inr (firstBodymatter, b))"
proof (intro conjI impI)
  assume "CurrLine b \<notin> {''<!--afterword-->'', ''<!--epilogue-->'', ''<!--appendix-->'', ''<!--end-->''}"
  then show "loop3 f3 b = Inl (UnknownDirective (CurrLine b))"
    by (subst loop3.simps) simp
next
  assume "CurrLine b \<notin> {''<!--bibliography-->'', ''<!--acknowledgments-->'', ''<!--dedication-->'',
        ''<!--epigraph-->'', ''<!--foreword-->'', ''<!--introduction-->'', ''<!--preface-->'',
        ''<!--prologue-->'', ''<!--preamble-->''}"
  then show "loop1 f1 b = Inr b"
    by (subst loop1.simps) simp
next
  assume "CurrLine b \<notin> {''<!--part-->'', ''<!--chapter-->''}"
  then show "loop2 firstBodymatter b = Inr (firstBodymatter, b)"
    by (subst loop2.simps) simp
qed

theorem C8_witness:
  "loop3 initBackFlags unknownLineBuffer = Inl (UnknownDirective ''<!--unknown-->'') \<and>
   loop1 noFrontFlags unknownLineBuffer = Inr unknownLineBuffer \<and>
   loop2 True unknownLineBuffer = Inr (True, unknownLineBuffer) \<and>
   parse sampleTime scenarioE = Inl (UnknownDirective ''<!--unknown-->'')"
proof -
  have c: "CurrLine unknownLineBuffer = ''<!--unknown-->''"
    by (simp add: unknownLineBuffer_def)
  note t = C8_back_matter_unknown_directive
    [of unknownLineBuffer initBackFlags noFrontFlags True, unfolded c]
  have 1: "loop3 initBackFlags unknownLineBuffer = Inl (UnknownDirective ''<!--unknown-->'')"
    using t [THEN conjunct1] by simp
  have 2: "loop1 noFrontFlags unknownLineBuffer = Inr unknownLineBuffer"
    using t [THEN conjunct2, THEN conjunct1] by simp
  have 3: "loop2 True unknownLineBuffer = Inr (True, unknownLineBuffer)"
    using t [THEN conjunct2, THEN conjunct2] by simp
  from 1 2 3 map_sum_InlD [OF scenarioE_error] show ?thesis by (intro conjI)
qed

subsection \<open>Claim C9\<close>

text \<open>
  C9. A \<open>titlepage\<close> attribute that names a file without any dot makes
  \<open>GenTitlePageSection\<close> read \<open>parts[1]\<close> of a one-element slice: the run panics with an
  index out of range, not with the unsupported-image-extension error that the same name
  gets in the \<open>images\<close> attribute.
\<close>

theorem C9_titlepage_name_without_dot:
  "parse sampleTime titlepageNoDot = Inl IndexOutOfRange \<and>
   parse sampleTime imagesNoDot = Inl UnsupportedImageExtension"
  using map_sum_InlD [OF titlepageNoDot_error] map_sum_InlD [OF imagesNoDot_error]
  by (intro conjI)

subsection \<open>Claim C10\<close>

text \<open>
  C10 (as amended). The parts branch of the partitioner is taken when the first Section
  of kind part or chapter is a part, and its scan ends only at a Section that is neither
  a part nor a chapter: when every Section after that first part is a part or a chapter
  (a document with parts and no back matter) the scan indexes one past the end of the
  sequence, and otherwise \<open>GenNAVFile\<close> returns its grouping.
\<close>

theorem C10_parts_branch_out_of_range:
  assumes ss: "sections b = front @ p # rest"
    and front: "\<forall>s \<in> set front. EpubType s \<noteq> ''part'' \<and> EpubType s \<noteq> ''chapter''"
    and p: "EpubType p = ''part''"
  shows "(GenNAVFile b = Inl IndexOutOfRange) =
           (\<forall>s \<in> set rest. EpubType s = ''part'' \<or> EpubType s = ''chapter'') \<and>
         (\<exists>nav. GenNAVFile b = Inr nav) =
           (\<exists>s \<in> set rest. EpubType s \<noteq> ''part'' \<and> EpubType s \<noteq> ''chapter'')"
proof (cases "\<forall>s \<in> set rest. isBodyKind s")
  case True
  from p have bp: "isBodyKind p" by (simp add: isBodyKind_def)
  have "\<forall>j. length front \<le> j \<and> j < length (sections b) \<longrightarrow> isBodyKind (sections b ! j)"
  proof (intro allI impI)
    fix j assume j: "length front \<le> j \<and> j < length (sections b)"
    then have "sections b ! j = (p # rest) ! (j - length front)"
      unfolding ss by (simp add: nth_append)
    moreover from j have "j - length front < length (p # rest)" unfolding ss by auto
    then have "(p # rest) ! (j - length front) \<in> set (p # rest)" by (rule nth_mem)
    ultimately show "isBodyKind (sections b ! j)" using True bp by auto
  qed
  then have "partsLoop (sections b) (length front) True zeroSection 0 [] = Inl IndexOutOfRange"
    by (intro partsLoop_out_of_range) simp_all
  then have g: "GenNAVFile b = Inl IndexOutOfRange"
    unfolding GenNAVFile_parts_branch [OF ss front [unfolded not_body_conv] p] by simp
  from True have "\<forall>s \<in> set rest. EpubType s = ''part'' \<or> EpubType s = ''chapter''"
    by (simp add: isBodyKind_def)
  with g show ?thesis by auto
next
  case False
  then have "\<exists>s \<in> set rest. \<not> isBodyKind s" by simp
  from split_list_first_prop [OF this] obtain run t rest' where
    rest: "rest = run @ t # rest'" and t: "\<not> isBodyKind t"
    and run: "\<forall>s \<in> set run. isBodyKind s"
    by auto
  from p have bp: "isBodyKind p" by (simp add: isBodyKind_def)
  define j where "j = length front + 1 + length run"
  have jl: "j < length (sections b)" unfolding ss rest j_def by simp
  have tj: "sections b ! j = t"
    unfolding ss rest j_def by (simp add: nth_append)
  have before: "\<forall>i. length front \<le> i \<and> i < j \<longrightarrow> isBodyKind (sections b ! i)"
  proof (intro allI impI)
    fix i assume i: "length front \<le> i \<and> i < j"
    then have "sections b ! i = (p # run) ! (i - length front)"
      unfolding ss rest j_def by (auto simp: nth_append nth_Cons')
    moreover from i have "i - length front < length (p # run)" unfolding j_def by auto
    then have "(p # run) ! (i - length front) \<in> set (p # run)" by (rule nth_mem)
    ultimately show "isBodyKind (sections b ! i)" using run bp by auto
  qed
  have "length front \<le> j" unfolding j_def by simp
  with partsLoop_stops [of 0 "length front" j "sections b" True zeroSection "[]"] jl tj t before
  obtain groups where
    pl: "partsLoop (sections b) (length front) True zeroSection 0 [] = Inr (j, groups)"
    by auto
  from jl have d: "sliceFrom (sections b) (int j) = Inr (drop j (sections b))"
    by (intro sliceFrom_drop) simp
  have g: "\<exists>nav. GenNAVFile b = Inr nav"
    unfolding GenNAVFile_parts_branch [OF ss front [unfolded not_body_conv] p] pl
    by (simp add: d)
  from False have "\<exists>s \<in> set rest. EpubType s \<noteq> ''part'' \<and> EpubType s \<noteq> ''chapter''"
    by (simp add: isBodyKind_def)
  with g show ?thesis by auto
qed

theorem C10_witness:
  "(\<exists>b. parse sampleTime scenarioB = Inr b \<and>
        map EpubType (sections b) =
          [''cover'', ''titlepage'', ''copyright-page'',
           ''part'', ''chapter'', ''chapter'', ''part'', ''chapter''] \<and>
        GenNAVFile b = Inl IndexOutOfRange) \<and>
   (\<exists>b nav. parse sampleTime scenarioBAppendix = Inr b \<and>
        map EpubType (sections b) =
          [''cover'', ''titlepage'', ''copyright-page'',
           ''part'', ''chapter'', ''chapter'', ''part'', ''chapter'', ''appendix''] \<and>
        GenNAVFile b = Inr nav)"
proof (rule conjI)
  from map_sum_sections_InrD [OF scenarioB_sections] obtain b where
    b: "parse sampleTime scenarioB = Inr b"
    and ss: "sections b = [coverSection, titlePageSection, copyrightSection] @
          \<lparr>ID = ''section001'', EpubType = ''part'', Heading = ''I''\<rparr> #
          [\<lparr>ID = ''section002'', EpubType = ''chapter'', Heading = ''One''\<rparr>,
           \<lparr>ID = ''section003'', EpubType = ''chapter'', Heading = ''Two''\<rparr>,
           \<lparr>ID = ''section004'', EpubType = ''part'', Heading = ''II''\<rparr>,
           \<lparr>ID = ''section005'', EpubType = ''chapter'', Heading = ''Three''\<rparr>]"
    by auto
  from ss have m: "map EpubType (sections b) =
          [''cover'', ''titlepage'', ''copyright-page'',
           ''part'', ''chapter'', ''chapter'', ''part'', ''chapter'']"
    by (simp add: coverSection_def titlePageSection_def copyrightSection_def)
  have "GenNAVFile b = Inl IndexOutOfRange"
    using C10_parts_branch_out_of_range [OF ss] fixed_not_body
    by (simp add: list_all_iff isBodyKind_def)
  with b m show "\<exists>b. parse sampleTime scenarioB = Inr b \<and>
        map EpubType (sections b) =
          [''cover'', ''titlepage'', ''copyright-page'',
           ''part'', ''chapter'', ''chapter'', ''part'', ''chapter''] \<and>
        GenNAVFile b = Inl IndexOutOfRange"
    by (intro exI [of _ b] conjI)
next
  from map_sum_sections_InrD [OF scenarioBAppendix_sections] obtain b where
    b: "parse sampleTime scenarioBAppendix = Inr b"
    and ss: "sections b = [coverSection, titlePageSection, copyrightSection] @
          \<lparr>ID = ''section001'', EpubType = ''part'', Heading = ''I''\<rparr> #
          [\<lparr>ID = ''section002'', EpubType = ''chapter'', Heading = ''One''\<rparr>,
           \<lparr>ID = ''section003'', EpubType = ''chapter'', Heading = ''Two''\<rparr>,
           \<lparr>ID = ''section004'', EpubType = ''part'', Heading = ''II''\<rparr>,
           \<lparr>ID = ''section005'', EpubType = ''chapter'', Heading = ''Three''\<rparr>,
           \<lparr>ID = ''section006'', EpubType = ''appendix'', Heading = ''Appendix''\<rparr>]"
    by auto
  from ss have m: "map EpubType (sections b) =
          [''cover'', ''titlepage'', ''copyright-page'',
           ''part'', ''chapter'', ''chapter'', ''part'', ''chapter'', ''appendix'']"
    by (simp add: coverSection_def titlePageSection_def copyrightSection_def)
  have "\<exists>nav. GenNAVFile b = Inr nav"
    using C10_parts_branch_out_of_range [OF ss] fixed_not_body
    by (simp add: list_all_iff isBodyKind_def)
  then obtain nav where "GenNAVFile b = Inr nav" ..
  with b m show "\<exists>b nav. parse sampleTime scenarioBAppendix = Inr b \<and>
        map EpubType (sections b) =
          [''cover'', ''titlepage'', ''copyright-page'',
           ''part'', ''chapter'', ''chapter'', ''part'', ''chapter'', ''appendix''] \<and>
        GenNAVFile b = Inr nav"
    by (intro exI [of _ b] exI [of _ nav] conjI)
qed

text \<open>
  The claim as stated fails on a document whose first body-matter directive is a
  chapter and which has a part later: its Section sequence contains a part and ends
  with a part, yet the branch without parts is taken and nothing is indexed out of
  range.
\<close>

theorem C10_counterexample:
  "\<exists>b nav. parse sampleTime chapterThenPart = Inr b \<and>
       map EpubType (sections b) =
         [''cover'', ''titlepage'', ''copyright-page'', ''chapter'', ''part''] \<and>
       GenNAVFile b = Inr nav \<and> \<not> HasParts nav"
proof -
  from map_sum_sections_InrD [OF chapterThenPart_sections] obtain b where
    b: "parse sampleTime chapterThenPart = Inr b"
    and ss: "sections b = [coverSection, titlePageSection, copyrightSection] @
          \<lparr>ID = ''section001'', EpubType = ''chapter'', Heading = ''One''\<rparr> #
          [\<lparr>ID = ''section002'', EpubType = ''part'', Heading = ''I''\<rparr>]"
    by auto
  from ss have m: "map EpubType (sections b) =
         [''cover'', ''titlepage'', ''copyright-page'', ''chapter'', ''part'']"
    by (simp add: coverSection_def titlePageSection_def copyrightSection_def)
  define nav where "nav =
      \<lparr>Title = GetAttribute b ''title'',
       FrontSections = [coverSection, titlePageSection, copyrightSection],
       HasParts = False, PartSections = [], ChapterSections = [],
       BackSections = [\<lparr>ID = ''section001'', EpubType = ''chapter'', Heading = ''One''\<rparr>,
                       \<lparr>ID = ''section002'', EpubType = ''part'', Heading = ''I''\<rparr>],
       Guides = guides b\<rparr>"
  have g: "GenNAVFile b = Inr nav"
    unfolding nav_def by (rule GenNAVFile_chapters_branch [OF ss fixed_not_body]) simp
  have h: "\<not> HasParts nav" by (simp add: nav_def)
  show ?thesis
    by (intro exI [of _ b] exI [of _ nav] conjI b m g h)
qed

subsection \<open>Further property X1\<close>

text \<open>
  X1. A document needs at least one part or chapter: every accepted document has a
  Section of kind part or chapter, and a document that gets through the front matter
  and has no line equal to the part or the chapter directive fails with the
  no-chapter-specified error.
\<close>

theorem X1_at_least_one_chapter:
  "(parse currTimeStamp ls = Inr b
      \<longrightarrow> (\<exists>s \<in> set (sections b). EpubType s = ''part'' \<or> EpubType s = ''chapter'')) \<and>
   (parseFrontMatter currTimeStamp ls = Inr b \<and>
    directiveLine ''part'' \<notin> set ls \<and> directiveLine ''chapter'' \<notin> set ls
      \<longrightarrow> parse currTimeStamp ls = Inl NoChapterSpecified)"
proof (intro conjI impI)
  assume p: "parse currTimeStamp ls = Inr b"
  then obtain b4 b5 where l2: "loop2 True b4 = Inr (False, b5)"
    and l3: "loop3 initBackFlags b5 = Inr b"
    by (auto elim: parse_stages)
  from loop2_first_body_section [OF l2] obtain s where
    s: "s \<in> set (sections b5)" "EpubType s = ''part'' \<or> EpubType s = ''chapter''" by blast
  from loop3_sections_prefix [OF l3] s(1) have "s \<in> set (sections b)" by auto
  with s(2) show "\<exists>s \<in> set (sections b). EpubType s = ''part'' \<or> EpubType s = ''chapter''"
    by blast
next
  assume a: "parseFrontMatter currTimeStamp ls = Inr b \<and>
    directiveLine ''part'' \<notin> set ls \<and> directiveLine ''chapter'' \<notin> set ls"
  with parseFrontMatter_sectionsInv [of currTimeStamp ls b]
  have "cursorOK b" "lines b = ls" by (simp_all add: sectionsInv_def)
  then have "CurrLine b \<in> set ls" by (auto simp: cursorOK_def)
  with a have "CurrLine b \<noteq> ''<!--part-->''" "CurrLine b \<noteq> ''<!--chapter-->''"
    by (auto simp: directiveLine_def)
  then have "loop2 True b = Inr (True, b)" by (subst loop2.simps) simp
  with a show "parse currTimeStamp ls = Inl NoChapterSpecified"
    by (simp add: parse_after_front_matter)
qed

theorem X1_witness:
  "(\<exists>b. parse sampleTime scenarioA = Inr b \<and>
        (\<exists>s \<in> set (sections b). EpubType s = ''part'' \<or> EpubType s = ''chapter'')) \<and>
   parse sampleTime noBodyMatter = Inl NoChapterSpecified"
proof (rule conjI)
  from map_sum_sections_InrD [OF scenarioA_sections] obtain b where
    b: "parse sampleTime scenarioA = Inr b" by blast
  with X1_at_least_one_chapter [of sampleTime scenarioA b]
  have "\<exists>s \<in> set (sections b). EpubType s = ''part'' \<or> EpubType s = ''chapter''" by blast
  with b show "\<exists>b. parse sampleTime scenarioA = Inr b \<and>
        (\<exists>s \<in> set (sections b). EpubType s = ''part'' \<or> EpubType s = ''chapter'')"
    by blast
next
  from noBodyMatter_front obtain b where "parseFrontMatter sampleTime noBodyMatter = Inr b"
    by (cases "parseFrontMatter sampleTime noBodyMatter") auto
  with X1_at_least_one_chapter [of sampleTime noBodyMatter b] noBodyMatter_lines
  show "parse sampleTime noBodyMatter = Inl NoChapterSpecified" by blast
qed

subsection \<open>Further property X2\<close>

text \<open>
  X2.  When the first body Section is a part and some Section after the body matter ends the
  scan, the navigation data have the Sections before that part as front list, the Sections
  from the first one that is neither part nor chapter as back list, and as part groups
  exactly the grouping of the spec applied to the Sections in between: each part with the
  maximal run of chapters that follows it.
\<close>

theorem X2_parts_branch_groups:
  assumes ss: "sections b = front @ p # rest"
    and front: "list_all (\<lambda>s. \<not> isBodyKind s) front"
    and p: "EpubType p = ''part''"
    and ends: "\<exists>s \<in> set rest. \<not> isBodyKind s"
  shows "GenNAVFile b =
     Inr \<lparr>Title = GetAttribute b ''title'', FrontSections = front, HasParts = True,
          PartSections = specPartGroups (takeWhile isBodyKind (p # rest)),
          ChapterSections = [],
          BackSections = dropWhile isBodyKind (p # rest), Guides = guides b\<rparr>"
proof -
  from p have pb: "isBodyKind p" by (simp add: isBodyKind_def)
  define body where "body = takeWhile isBodyKind rest"
  from ends obtain t post where d: "dropWhile isBodyKind rest = t # post" and t: "\<not> isBodyKind t"
    by (rule body_run_split)
  have rest: "rest = body @ t # post"
    unfolding body_def d [symmetric] by simp
  have all: "list_all isBodyKind body"
    unfolding body_def list_all_iff by (auto dest: set_takeWhileD)
  have ss': "sections b = (front @ [p]) @ body @ t # post"
    unfolding ss rest by simp
  have e: "slice (sections b) (int (length (front @ [p]))) (int (length (front @ [p]))) = Inr []"
    using slice_empty [of "length (front @ [p])" "sections b"] unfolding ss' by simp
  have "partsLoop (sections b) (length front) True zeroSection 0 [] =
        partsLoop (sections b) (length (front @ [p])) False p (length (front @ [p])) []"
    using ss p by (rule partsLoop_first_part)
  also have "\<dots> = Inr (length (front @ [p]) + length body, [] @ closeGroups p [] body)"
    using ss' all t e by (rule partsLoop_groups)
  finally have loop: "partsLoop (sections b) (length front) True zeroSection 0 [] =
      Inr (length front + 1 + length body, closeGroups p [] body)"
    by simp
  have g: "closeGroups p [] body = specPartGroups (p # body)"
    using closeGroups_spec [OF all, of p "[]"] p by simp
  have tw: "takeWhile isBodyKind (p # rest) = p # body"
    using pb by (simp add: body_def)
  have dw: "dropWhile isBodyKind (p # rest) = t # post"
    using pb d by simp
  have "length front + 1 + length body \<le> length (sections b)"
    unfolding ss' by simp
  then have "sliceFrom (sections b) (int (length front + 1 + length body)) =
      Inr (drop (length front + 1 + length body) (sections b))"
    by (rule sliceFrom_drop)
  also have "drop (length front + 1 + length body) (sections b) = t # post"
    unfolding ss' by simp
  finally have bs: "sliceFrom (sections b) (int (length front + 1 + length body)) = Inr (t # post)" .
  show ?thesis
    unfolding GenNAVFile_parts_branch [OF ss front p] loop bindE_simps prod.case bs tw dw g
    by (rule refl)
qed

theorem X2_witness:
  "\<exists>b. parse sampleTime scenarioBAppendix = Inr b \<and>
       GenNAVFile b =
         Inr \<lparr>Title = GetAttribute b ''title'',
              FrontSections = [coverSection, titlePageSection, copyrightSection],
              HasParts = True,
              PartSections =
                [\<lparr>Part = \<lparr>ID = ''section001'', EpubType = ''part'', Heading = ''I''\<rparr>,
                  Chapters = [\<lparr>ID = ''section002'', EpubType = ''chapter'', Heading = ''One''\<rparr>,
                              \<lparr>ID = ''section003'', EpubType = ''chapter'', Heading = ''Two''\<rparr>]\<rparr>,
                 \<lparr>Part = \<lparr>ID = ''section004'', EpubType = ''part'', Heading = ''II''\<rparr>,
                  Chapters = [\<lparr>ID = ''section005'', EpubType = ''chapter'', Heading = ''Three''\<rparr>]\<rparr>],
              ChapterSections = [],
              BackSections = [\<lparr>ID = ''section006'', EpubType = ''appendix'', Heading = ''Appendix''\<rparr>],
              Guides = guides b\<rparr>"
proof -
  from map_sum_sections_InrD [OF scenarioBAppendix_sections] obtain b where
    b: "parse sampleTime scenarioBAppendix = Inr b"
    and ss: "sections b = [coverSection, titlePageSection, copyrightSection] @
          \<lparr>ID = ''section001'', EpubType = ''part'', Heading = ''I''\<rparr> #
          [\<lparr>ID = ''section002'', EpubType = ''chapter'', Heading = ''One''\<rparr>,
           \<lparr>ID = ''section003'', EpubType = ''chapter'', Heading = ''Two''\<rparr>,
           \<lparr>ID = ''section004'', EpubType = ''part'', Heading = ''II''\<rparr>,
           \<lparr>ID = ''section005'', EpubType = ''chapter'', Heading = ''Three''\<rparr>,
           \<lparr>ID = ''section006'', EpubType = ''appendix'', Heading = ''Appendix''\<rparr>]"
    by auto
  have g: "GenNAVFile b =
         Inr \<lparr>Title = GetAttribute b ''title'',
              FrontSections = [coverSection, titlePageSection, copyrightSection],
              HasParts = True,
              PartSections =
                [\<lparr>Part = \<lparr>ID = ''section001'', EpubType = ''part'', Heading = ''I''\<rparr>,
                  Chapters = [\<lparr>ID = ''section002'', EpubType = ''chapter'', Heading = ''One''\<rparr>,
                              \<lparr>ID = ''section003'', EpubType = ''chapter'', Heading = ''Two''\<rparr>]\<rparr>,
                 \<lparr>Part = \<lparr>ID = ''section004'', EpubType = ''part'', Heading = ''II''\<rparr>,
                  Chapters = [\<lparr>ID = ''section005'', EpubType = ''chapter'', Heading = ''Three''\<rparr>]\<rparr>],
              ChapterSections = [],
              BackSections = [\<lparr>ID = ''section006'', EpubType = ''appendix'', Heading = ''Appendix''\<rparr>],
              Guides = guides b\<rparr>"
    using X2_parts_branch_groups [OF ss fixed_not_body]
    by (simp add: isBodyKind_def)
  from b g show ?thesis by (intro exI [of _ b] conjI)
qed

end
